theory Spec2Isabelle
  imports Main "HOL-Library.AList" "HOL-Library.Multiset" "HOL-Library.Char_ord"
    "HOL-Library.List_Lexorder"
begin

section \<open>Decimal codec (scripts/export-summary.ts, lines 9-11 and 52-61)\<close>

text \<open>
  JavaScript \<open>bigint\<close> values are unbounded integers and are modelled as \<open>int\<close>.
  Strings are \<open>char list\<close>; every string the codec produces is ASCII.
\<close>

definition TOP_N :: nat where
  "TOP_N = 50"

definition DECIMALS :: nat where
  "DECIMALS = 18"

definition DECIMALS_DIVISOR :: int where
  "DECIMALS_DIVISOR = 10 ^ DECIMALS"

text \<open>The character of one decimal digit, \<open>0\<close> is code 48.\<close>

definition digit_char :: "nat \<Rightarrow> char" where
  "digit_char d = char_of (48 + d)"

text \<open>\<open>BigInt.prototype.toString()\<close> on a non-negative value: base 10, no padding.\<close>

fun toString_nat :: "nat \<Rightarrow> string" where
  "toString_nat n =
     (if n < 10 then [digit_char n] else toString_nat (n div 10) @ [digit_char (n mod 10)])"

declare toString_nat.simps [simp del]

text \<open>\<open>toString()\<close> of a signed integer (also the text a template literal inserts).\<close>

definition toString_int :: "int \<Rightarrow> string" where
  "toString_int i = (if i < 0 then ''-'' @ toString_nat (nat (- i)) else toString_nat (nat i))"

text \<open>\<open>s.padStart(n, c)\<close> with a one-character filler.\<close>

definition padStart :: "nat \<Rightarrow> char \<Rightarrow> string \<Rightarrow> string" where
  "padStart n c s = replicate (n - length s) c @ s"

text \<open>\<open>s.replace(/0+$/, "")\<close>: the longest run of zeros at the end is removed.\<close>

definition strip_trailing_zeros :: "string \<Rightarrow> string" where
  "strip_trailing_zeros s = rev (dropWhile (\<lambda>c. c = CHR ''0'') (rev s))"

text \<open>
  \<open>bigintToDecimalString\<close>. \<open>abs\<close> is non-negative, so the truncating \<open>/\<close> and \<open>%\<close> of
  \<open>bigint\<close> agree with \<open>div\<close> and \<open>mod\<close>.
\<close>

definition bigintToDecimalString :: "int \<Rightarrow> string" where
  "bigintToDecimalString raw =
     (let negative = raw < 0;
          abs = (if negative then - raw else raw);
          whole = abs div DECIMALS_DIVISOR;
          frac = abs mod DECIMALS_DIVISOR;
          prefix = (if negative then ''-'' else '''')
      in if frac = 0 then prefix @ toString_int whole
         else let fracStr = strip_trailing_zeros (padStart 18 (CHR ''0'') (toString_int frac))
              in prefix @ toString_int whole @ ''.'' @ fracStr)"

subsection \<open>Reading decimal digits back\<close>

definition is_digit :: "char \<Rightarrow> bool" where
  "is_digit c = (48 \<le> (of_char c :: nat) \<and> (of_char c :: nat) \<le> 57)"

definition digit_val :: "char \<Rightarrow> nat" where
  "digit_val c = of_char c - 48"

definition digits_val :: "string \<Rightarrow> nat" where
  "digits_val s = foldl (\<lambda>acc c. 10 * acc + digit_val c) 0 s"

section \<open>Rows, chain names and addresses (scripts/export-summary.ts, lines 12-27)\<close>

text \<open>
  The store sends numeric columns (\<open>value\<close>, \<open>balance\<close>) as decimal strings and the script
  reads them back with \<open>BigInt(...)\<close>; a row is modelled with the integer already read.
  JavaScript numbers that hold integers (\<open>chainId\<close>, \<open>blockTimestamp\<close>, \<open>transferCount\<close>)
  are \<open>int\<close>: their sums and comparisons are exact below \<open>2^53\<close>. Field names carry a prefix per record, since selectors are global.
\<close>

record TransferRow =
  t_chainId :: int
  t_blockTimestamp :: int
  t_from :: string
  t_to :: string
  t_value :: int

record AccountRow =
  a_address :: string
  a_chainId :: int
  a_balance :: int
  a_transferCount :: int

definition CHAIN_NAMES :: "int \<rightharpoonup> string" where
  "CHAIN_NAMES = [1 \<mapsto> ''ethereum'', 100 \<mapsto> ''gnosis'']"

text \<open>
  \<open>CHAIN_NAMES[id] || `chain_${id}`\<close>: the right operand is taken when the lookup is
  \<open>undefined\<close> or the empty string. A chain identifier is an integer that a template
  literal prints in plain decimal (below \<open>10^21\<close> in magnitude; the store's \<open>Int\<close> has 32
  bits).
\<close>

definition chainName_of :: "int \<Rightarrow> string" where
  "chainName_of chainId =
     (case CHAIN_NAMES chainId of
        Some name \<Rightarrow> (if name \<noteq> [] then name else ''chain_'' @ toString_int chainId)
      | None \<Rightarrow> ''chain_'' @ toString_int chainId)"

text \<open>
  \<open>String.prototype.toLowerCase\<close> on the ASCII range, where addresses (hexadecimal text)
  live: the letters \<open>A\<close> to \<open>Z\<close> (codes 65 to 90) move up by 32, every other character stays.
\<close>

definition lower_char :: "char \<Rightarrow> char" where
  "lower_char c =
     (let n = (of_char c :: nat) in if 65 \<le> n \<and> n \<le> 90 then char_of (n + 32) else c)"

definition toLowerCase :: "string \<Rightarrow> string" where
  "toLowerCase s = map lower_char s"

definition ZERO :: string where
  "ZERO = ''0x0000000000000000000000000000000000000000''"

text \<open>
  A JavaScript \<open>Set\<close> of strings keeps insertion order and ignores a repeated \<open>add\<close>.
\<close>

definition set_add :: "'a \<Rightarrow> 'a list \<Rightarrow> 'a list" where
  "set_add x xs = (if x \<in> set xs then xs else xs @ [x])"

text \<open>
  A JavaScript \<open>Map\<close> keeps its keys in insertion order: it is an association list, read
  with \<open>map_of\<close> and written with \<open>AList.update\<close>, which replaces the value of a present
  key in place and appends an absent key at the end, as \<open>Map.prototype.set\<close> does.

  \<open>Array.prototype.sort(cmp)\<close> is stable: elements that compare equal keep their order.
  It is modelled by insertion from the right, which places each element before the first
  element that it does not have to follow.
\<close>

fun insert_by :: "('a \<Rightarrow> 'a \<Rightarrow> int) \<Rightarrow> 'a \<Rightarrow> 'a list \<Rightarrow> 'a list" where
  "insert_by cmp x [] = [x]"
| "insert_by cmp x (y # ys) = (if cmp x y \<le> 0 then x # y # ys else y # insert_by cmp x ys)"

definition js_sort :: "('a \<Rightarrow> 'a \<Rightarrow> int) \<Rightarrow> 'a list \<Rightarrow> 'a list" where
  "js_sort cmp xs = foldr (insert_by cmp) xs []"

section \<open>Windowed flow aggregation (scripts/export-summary.ts, lines 63-68 and 219-281)\<close>

record FlowEntry =
  f_inflow :: int
  f_outflow :: int
  f_count :: int
  f_chains :: "string list"

type_synonym flow_map = "(string \<times> FlowEntry) list"

definition new_entry :: FlowEntry where
  "new_entry = \<lparr>f_inflow = 0, f_outflow = 0, f_count = 0, f_chains = []\<rparr>"

text \<open>\<open>flows.get(addr) || { inflow: 0n, outflow: 0n, count: 0, chains: new Set() }\<close>.\<close>

definition flow_entry :: "flow_map \<Rightarrow> string \<Rightarrow> FlowEntry" where
  "flow_entry flows addr = (case map_of flows addr of Some e \<Rightarrow> e | None \<Rightarrow> new_entry)"

text \<open>Lines 236-247: the sender's side of one transfer in one window.\<close>

definition add_outflow :: "string \<Rightarrow> int \<Rightarrow> string \<Rightarrow> flow_map \<Rightarrow> flow_map" where
  "add_outflow fromAddr v chainName flows =
     (let entry = flow_entry flows fromAddr;
          entry = entry\<lparr>f_outflow := f_outflow entry + v\<rparr>;
          entry = entry\<lparr>f_count := f_count entry + 1\<rparr>;
          entry = entry\<lparr>f_chains := set_add chainName (f_chains entry)\<rparr>
      in AList.update fromAddr entry flows)"

text \<open>Lines 249-260: the receiver's side.\<close>

definition add_inflow :: "string \<Rightarrow> int \<Rightarrow> string \<Rightarrow> flow_map \<Rightarrow> flow_map" where
  "add_inflow toAddr v chainName flows =
     (let entry = flow_entry flows toAddr;
          entry = entry\<lparr>f_inflow := f_inflow entry + v\<rparr>;
          entry = entry\<lparr>f_count := f_count entry + 1\<rparr>;
          entry = entry\<lparr>f_chains := set_add chainName (f_chains entry)\<rparr>
      in AList.update toAddr entry flows)"

text \<open>
  The body of the inner loop (lines 234-260) for one window: a transfer before the cutoff
  is skipped; an empty string is falsy, so an empty address is skipped like the zero address.
\<close>

definition process_window :: "int \<Rightarrow> TransferRow \<Rightarrow> flow_map \<Rightarrow> flow_map" where
  "process_window cutoff t flows =
     (let chainName = chainName_of (t_chainId t);
          v = t_value t;
          fromAddr = toLowerCase (t_from t);
          toAddr = toLowerCase (t_to t)
      in if t_blockTimestamp t < cutoff then flows
         else let flows = (if fromAddr \<noteq> [] \<and> fromAddr \<noteq> ZERO
                           then add_outflow fromAddr v chainName flows else flows);
                  flows = (if toAddr \<noteq> [] \<and> toAddr \<noteq> ZERO
                           then add_inflow toAddr v chainName flows else flows)
              in flows)"

text \<open>
  One transfer against both windows (lines 224-262); the state is the pair
  \<open>(flows7d, flows30d)\<close>. The two maps share no entry object.
\<close>

definition process_transfer ::
  "int \<Rightarrow> int \<Rightarrow> TransferRow \<Rightarrow> flow_map \<times> flow_map \<Rightarrow> flow_map \<times> flow_map" where
  "process_transfer cutoff7d cutoff30d t st =
     (process_window cutoff7d t (fst st), process_window cutoff30d t (snd st))"

definition compute_flows :: "int \<Rightarrow> int \<Rightarrow> TransferRow list \<Rightarrow> flow_map \<times> flow_map" where
  "compute_flows cutoff7d cutoff30d allTransfers =
     fold (process_transfer cutoff7d cutoff30d) allTransfers ([], [])"

definition cutoff7d :: "int \<Rightarrow> int" where
  "cutoff7d now = now - 7 * 86400"

definition cutoff30d :: "int \<Rightarrow> int" where
  "cutoff30d now = now - 30 * 86400"

record FlowRow =
  r_address :: string
  r_inflow :: string
  r_outflow :: string
  r_net_flow :: string
  r_transfer_count :: int
  r_chains :: "string list"

definition net :: "FlowEntry \<Rightarrow> int" where
  "net e = f_inflow e - f_outflow e"

definition abs_net :: "FlowEntry \<Rightarrow> int" where
  "abs_net e = (let n = net e in if n < 0 then - n else n)"

text \<open>The comparator of lines 266-271.\<close>

definition flow_cmp :: "string \<times> FlowEntry \<Rightarrow> string \<times> FlowEntry \<Rightarrow> int" where
  "flow_cmp a b =
     (let absA = abs_net (snd a); absB = abs_net (snd b)
      in if absB > absA then 1 else if absB < absA then - 1 else 0)"

definition flow_row :: "string \<times> FlowEntry \<Rightarrow> FlowRow" where
  "flow_row p =
     (case p of (address, entry) \<Rightarrow>
        \<lparr>r_address = address,
         r_inflow = bigintToDecimalString (f_inflow entry),
         r_outflow = bigintToDecimalString (f_outflow entry),
         r_net_flow = bigintToDecimalString (f_inflow entry - f_outflow entry),
         r_transfer_count = f_count entry,
         r_chains = sort (f_chains entry)\<rparr>)"

definition buildTop :: "flow_map \<Rightarrow> FlowRow list" where
  "buildTop flows = map flow_row (take TOP_N (js_sort flow_cmp flows))"

section \<open>Store queries (scripts/export-summary.ts, lines 29-50)\<close>

text \<open>
  The store is an external collaborator. What it answers to one request is an
  \<open>http_response\<close>: the request is rejected (no connection), or a response arrives with its
  \<open>ok\<close> flag, its status and a body, which is not JSON or is JSON with optional \<open>errors\<close>
  and \<open>data\<close>. \<open>graphqlQuery\<close> turns a response into the data or into the error thrown.
  Any \<open>errors\<close> array, even an empty one, is truthy. The last error, \<open>WriteFailed\<close>, is
  not thrown by a query but by the write of the output file.
\<close>

datatype error = FetchFailed | HttpStatus nat | BodyNotJson | GraphQLErrors string | WriteFailed

datatype 'd json_body = NotJson | Json "string option" 'd

datatype 'd http_response = Rejected | Resp bool nat "'d json_body"

fun graphqlQuery :: "'d http_response \<Rightarrow> error + 'd" where
  "graphqlQuery Rejected = Inl FetchFailed"
| "graphqlQuery (Resp ok status body) =
     (if \<not> ok then Inl (HttpStatus status)
      else case body of
             NotJson \<Rightarrow> Inl BodyNotJson
           | Json errors d \<Rightarrow> (case errors of Some e \<Rightarrow> Inl (GraphQLErrors e) | None \<Rightarrow> Inr d))"

text \<open>
  The four queries of the script, with their variables, and the world a run sees: the clock,
  the store's answer to each query, the label file (\<open>None\<close> when reading or parsing it
  throws), the time stamp taken when the summary is composed, and what happens when the
  output file is written.

  \<open>fs.writeFileSync\<close> opens the file for writing, which empties it, writes the text and
  closes the file. It succeeds, or it throws before the file is opened (no such directory, no
  permission), or it throws after the file was emptied (disk full, input/output error).
\<close>

datatype write_outcome = WriteOk | OpenFails | WriteFails

text \<open>
  The world record.
\<close>

datatype query =
    RecentTransfers int nat nat
  | TotalCount
  | AccountBalances "string list"
  | TopAccounts nat nat

record world =
  w_now :: int
  w_transfers :: "int \<Rightarrow> nat \<Rightarrow> nat \<Rightarrow> TransferRow list http_response"
  w_count :: "int http_response"
  w_balances :: "string list \<Rightarrow> AccountRow list http_response"
  w_topAccounts :: "nat \<Rightarrow> nat \<Rightarrow> AccountRow list http_response"
  w_labels :: "(string \<times> string) list option"
  w_synced_at :: string
  w_write :: write_outcome

text \<open>
  A run keeps no log; the model threads one, the list of queries issued so far, each with
  the error it threw if any, so that theorems can speak about the queries of a run.
\<close>

type_synonym log = "(query \<times> error option) list"

section \<open>Balance enricher (scripts/export-summary.ts, lines 70-101)\<close>

type_synonym balance_map = "(string \<times> int) list"

definition batchSize :: nat where
  "batchSize = 500"

text \<open>Lines 93-97. \<open>balanceMap.get(addr) || 0n\<close> is zero for an absent key.\<close>

definition merge_balance :: "AccountRow \<Rightarrow> balance_map \<Rightarrow> balance_map" where
  "merge_balance acct balanceMap =
     (let addr = toLowerCase (a_address acct);
          prev = (case map_of balanceMap addr of Some b \<Rightarrow> b | None \<Rightarrow> 0)
      in AList.update addr (prev + a_balance acct) balanceMap)"

text \<open>
  The \<open>for\<close> loop of lines 77-98, from index \<open>i\<close>; a failed query ends the function.
  The loop is given what the store answers to an \<open>AccountBalances\<close> query.
\<close>

function fetchBalances_loop ::
  "(string list \<Rightarrow> AccountRow list http_response) \<Rightarrow> string list \<Rightarrow> nat \<Rightarrow> balance_map \<Rightarrow> log
     \<Rightarrow> (error + balance_map) \<times> log" where
  "fetchBalances_loop store addresses i balanceMap lg =
     (if i < length addresses then
        (let batch = take batchSize (drop i addresses)
         in case graphqlQuery (store batch) of
              Inl e \<Rightarrow> (Inl e, lg @ [(AccountBalances batch, Some e)])
            | Inr accounts \<Rightarrow>
                fetchBalances_loop store addresses (i + batchSize)
                  (fold merge_balance accounts balanceMap) (lg @ [(AccountBalances batch, None)]))
      else (Inr balanceMap, lg))"
  by pat_completeness auto
termination
  by (relation "measure (\<lambda>(store, addresses, i, balanceMap, lg). length addresses - i)")
     (auto simp: batchSize_def)

declare fetchBalances_loop.simps [simp del]

definition fetchBalances :: "world \<Rightarrow> string list \<Rightarrow> log \<Rightarrow> (error + balance_map) \<times> log" where
  "fetchBalances W addresses lg = fetchBalances_loop (w_balances W) addresses 0 [] lg"

section \<open>Top holders (scripts/export-summary.ts, lines 103-164)\<close>

record HolderEntry =
  h_balance :: int
  h_transferCount :: int
  h_chains :: "string list"

type_synonym holder_map = "(string \<times> HolderEntry) list"

text \<open>Lines 135-150, one row: an existing entry is changed in place, a new one is appended.\<close>

definition merge_holder :: "AccountRow \<Rightarrow> holder_map \<Rightarrow> holder_map" where
  "merge_holder acct holderMap =
     (let addr = toLowerCase (a_address acct);
          existing = map_of holderMap addr;
          chainName = chainName_of (a_chainId acct)
      in case existing of
           Some ex \<Rightarrow>
             AList.update addr
               \<lparr>h_balance = h_balance ex + a_balance acct,
                h_transferCount = h_transferCount ex + a_transferCount acct,
                h_chains = set_add chainName (h_chains ex)\<rparr> holderMap
         | None \<Rightarrow>
             AList.update addr
               \<lparr>h_balance = a_balance acct,
                h_transferCount = a_transferCount acct,
                h_chains = [chainName]\<rparr> holderMap)"

text \<open>The inner \<open>for\<close> loop over one page.\<close>

definition merge_page :: "AccountRow list \<Rightarrow> holder_map \<Rightarrow> holder_map" where
  "merge_page accounts holderMap = fold merge_holder accounts holderMap"

text \<open>
  The \<open>while (true)\<close> loop of lines 114-153, with the page size as a parameter, given
  what the store answers to a \<open>TopAccounts\<close> query. It ends at
  the first page shorter than \<open>limit\<close> or at a failed query, and runs forever against a
  store that keeps answering full pages: the result is \<open>None\<close> then.
\<close>

partial_function (option) fetchTopHolders_loop ::
  "(nat \<Rightarrow> nat \<Rightarrow> AccountRow list http_response) \<Rightarrow> nat \<Rightarrow> nat \<Rightarrow> holder_map \<Rightarrow> log
     \<Rightarrow> ((error + holder_map) \<times> log) option" where
  "fetchTopHolders_loop store limit offset holderMap lg =
     (case graphqlQuery (store limit offset) of
        Inl e \<Rightarrow> Some (Inl e, lg @ [(TopAccounts limit offset, Some e)])
      | Inr accounts \<Rightarrow>
          if length accounts < limit
          then Some (Inr (merge_page accounts holderMap), lg @ [(TopAccounts limit offset, None)])
          else fetchTopHolders_loop store limit (offset + limit) (merge_page accounts holderMap)
                 (lg @ [(TopAccounts limit offset, None)]))"

declare fetchTopHolders_loop.simps [code]

record HolderRow =
  hr_address :: string
  hr_balance :: string
  hr_transfer_count :: int
  hr_chains :: "string list"

text \<open>The comparator of line 156.\<close>

definition holder_cmp :: "string \<times> HolderEntry \<Rightarrow> string \<times> HolderEntry \<Rightarrow> int" where
  "holder_cmp a b =
     (if h_balance (snd b) > h_balance (snd a) then 1
      else if h_balance (snd b) < h_balance (snd a) then - 1 else 0)"

definition holder_row :: "string \<times> HolderEntry \<Rightarrow> HolderRow" where
  "holder_row p =
     (case p of (address, entry) \<Rightarrow>
        \<lparr>hr_address = address,
         hr_balance = bigintToDecimalString (h_balance entry),
         hr_transfer_count = h_transferCount entry,
         hr_chains = sort (h_chains entry)\<rparr>)"

definition rank_holders :: "holder_map \<Rightarrow> HolderRow list" where
  "rank_holders holderMap = map holder_row (take TOP_N (js_sort holder_cmp holderMap))"

definition fetchTopHolders :: "world \<Rightarrow> log \<Rightarrow> ((error + HolderRow list) \<times> log) option" where
  "fetchTopHolders W lg =
     (case fetchTopHolders_loop (w_topAccounts W) 5000 0 [] lg of
        None \<Rightarrow> None
      | Some (Inl e, lg') \<Rightarrow> Some (Inl e, lg')
      | Some (Inr holderMap, lg') \<Rightarrow> Some (Inr (rank_holders holderMap), lg'))"

section \<open>Summary composer (scripts/export-summary.ts, lines 166-337)\<close>

text \<open>
  The pagination loop of lines 176-201, given what the store answers to a
  \<open>RecentTransfers\<close> query.
\<close>

partial_function (option) fetchAllTransfers_loop ::
  "(int \<Rightarrow> nat \<Rightarrow> nat \<Rightarrow> TransferRow list http_response) \<Rightarrow> int \<Rightarrow> nat \<Rightarrow> nat
     \<Rightarrow> TransferRow list \<Rightarrow> log \<Rightarrow> ((error + TransferRow list) \<times> log) option" where
  "fetchAllTransfers_loop store cutoff limit offset allTransfers lg =
     (case graphqlQuery (store cutoff limit offset) of
        Inl e \<Rightarrow> Some (Inl e, lg @ [(RecentTransfers cutoff limit offset, Some e)])
      | Inr batch \<Rightarrow>
          if length batch < limit
          then Some (Inr (allTransfers @ batch), lg @ [(RecentTransfers cutoff limit offset, None)])
          else fetchAllTransfers_loop store cutoff limit (offset + limit) (allTransfers @ batch)
                 (lg @ [(RecentTransfers cutoff limit offset, None)]))"

declare fetchAllTransfers_loop.simps [code]

record BalanceRow = FlowRow +
  r_balance :: string

text \<open>Lines 298-305. \<open>balances.get(r.address) || 0n\<close> is zero for an absent key.\<close>

definition addBalances :: "balance_map \<Rightarrow> FlowRow list \<Rightarrow> BalanceRow list" where
  "addBalances balances rows =
     map (\<lambda>r. \<lparr>r_address = r_address r, r_inflow = r_inflow r, r_outflow = r_outflow r,
                r_net_flow = r_net_flow r, r_transfer_count = r_transfer_count r,
                r_chains = r_chains r,
                r_balance = bigintToDecimalString
                  (case map_of balances (r_address r) of Some b \<Rightarrow> b | None \<Rightarrow> 0)\<rparr>) rows"

text \<open>
  Lines 308-316: everything inside \<open>try\<close> that throws leaves \<open>labels\<close> empty. Otherwise
  the keys are lower-cased; of two equal keys the later value stays.
\<close>

definition load_labels :: "(string \<times> string) list option \<Rightarrow> (string \<times> string) list" where
  "load_labels file =
     (case file of
        None \<Rightarrow> []
      | Some raw \<Rightarrow> fold (\<lambda>kv. AList.update (toLowerCase (fst kv)) (snd kv)) raw [])"

record summary =
  top_7d :: "BalanceRow list"
  top_30d :: "BalanceRow list"
  top_holders :: "HolderRow list"
  labels :: "(string \<times> string) list"
  synced_at :: string
  total_transfers :: int

text \<open>
  The output file holds nothing, or a document (the serialisation of a summary, modelled
  by the summary itself), or what a failed write left behind: an empty or partly written
  text.
\<close>

datatype output_file = NoFile | Document summary | Truncated

text \<open>
  Line 327, \<open>fs.writeFileSync(OUTPUT_PATH, JSON.stringify(summary, null, 2) + "\\n")\<close>: the
  result or the error thrown, and the file afterwards.
\<close>

definition writeFileSync ::
  "write_outcome \<Rightarrow> summary \<Rightarrow> output_file \<Rightarrow> (error + unit) \<times> output_file" where
  "writeFileSync outcome doc file =
     (case outcome of
        WriteOk \<Rightarrow> (Inr (), Document doc)
      | OpenFails \<Rightarrow> (Inl WriteFailed, file)
      | WriteFails \<Rightarrow> (Inl WriteFailed, Truncated))"

text \<open>
  \<open>main\<close>. The output file is part of the state: its content before the run goes in, its
  content after the run comes out, and only the last step (line 327) touches it.
\<close>

definition main :: "world \<Rightarrow> output_file \<Rightarrow> ((error + unit) \<times> output_file \<times> log) option" where
  "main W file =
     (let now = w_now W;
          cutoff7 = cutoff7d now;
          cutoff30 = cutoff30d now
      in case fetchAllTransfers_loop (w_transfers W) cutoff30 10000 0 [] [] of
           None \<Rightarrow> None
         | Some (Inl e, lg) \<Rightarrow> Some (Inl e, file, lg)
         | Some (Inr allTransfers, lg) \<Rightarrow>
            (case graphqlQuery (w_count W) of
               Inl e \<Rightarrow> Some (Inl e, file, lg @ [(TotalCount, Some e)])
             | Inr totalTransfers \<Rightarrow>
                (let lg = lg @ [(TotalCount, None)];
                     flows = compute_flows cutoff7 cutoff30 allTransfers;
                     top7d = buildTop (fst flows);
                     top30d = buildTop (snd flows);
                     allAddresses = fold set_add (map r_address top30d)
                                      (fold set_add (map r_address top7d) [])
                 in case fetchBalances W allAddresses lg of
                      (Inl e, lg) \<Rightarrow> Some (Inl e, file, lg)
                    | (Inr balances, lg) \<Rightarrow>
                       (case fetchTopHolders W lg of
                          None \<Rightarrow> None
                        | Some (Inl e, lg) \<Rightarrow> Some (Inl e, file, lg)
                        | Some (Inr topHolders, lg) \<Rightarrow>
                           (let labels = load_labels (w_labels W);
                                summary = \<lparr>top_7d = addBalances balances top7d,
                                           top_30d = addBalances balances top30d,
                                           top_holders = topHolders,
                                           labels = labels,
                                           synced_at = w_synced_at W,
                                           total_transfers = totalTransfers\<rparr>
                            in case writeFileSync (w_write W) summary file of
                                 (Inl e, file') \<Rightarrow> Some (Inl e, file', lg)
                               | (Inr u, file') \<Rightarrow> Some (Inr (), file', lg))))))"


section \<open>Transfer handler (src/EventHandlers.ts, lines 3-55)\<close>

record TransferEvent =
  ev_chainId :: int
  ev_blockNumber :: int
  ev_blockTimestamp :: int
  ev_transactionHash :: string
  ev_logIndex :: int
  ev_from :: string
  ev_to :: string
  ev_value :: int

record Transfer =
  tr_id :: string
  tr_chainId :: int
  tr_blockNumber :: int
  tr_blockTimestamp :: int
  tr_transactionHash :: string
  tr_logIndex :: int
  tr_from :: string
  tr_to :: string
  tr_value :: int

record Account =
  acc_id :: string
  acc_chainId :: int
  acc_address :: string
  acc_balance :: int
  acc_transferCount :: int
  acc_lastUpdatedBlock :: int
  acc_lastUpdatedTimestamp :: int

text \<open>The handler's context: the two entity tables, keyed by id.\<close>

record handlerContext =
  ctx_Transfer :: "string \<rightharpoonup> Transfer"
  ctx_Account :: "string \<rightharpoonup> Account"

definition ZERO_ADDRESS :: string where
  "ZERO_ADDRESS = ''0x0000000000000000000000000000000000000000''"

definition empty_context :: handlerContext where
  "empty_context = \<lparr>ctx_Transfer = Map.empty, ctx_Account = Map.empty\<rparr>"

text \<open>The id of an Account row, \<open>`${event.chainId}_${addr}`\<close>.\<close>

definition account_id :: "int \<Rightarrow> string \<Rightarrow> string" where
  "account_id chainId addr = toString_int chainId @ ''_'' @ addr"

text \<open>
  \<open>context.Account.get\<close> reads what earlier \<open>set\<close> calls wrote, so the handler is a
  sequence of table updates. \<open>a?.balance ?? 0n\<close> is zero when no row was found.
\<close>

definition handler :: "TransferEvent \<Rightarrow> handlerContext \<Rightarrow> handlerContext" where
  "handler event ctx =
     (let transferId = toString_int (ev_chainId event) @ ''_''
                         @ toString_int (ev_blockNumber event) @ ''_''
                         @ toString_int (ev_logIndex event);
          fromAddr = toLowerCase (ev_from event);
          toAddr = toLowerCase (ev_to event);
          v = ev_value event;
          ctx = ctx\<lparr>ctx_Transfer := (ctx_Transfer ctx)(transferId \<mapsto>
                  \<lparr>tr_id = transferId,
                   tr_chainId = ev_chainId event,
                   tr_blockNumber = ev_blockNumber event,
                   tr_blockTimestamp = ev_blockTimestamp event,
                   tr_transactionHash = ev_transactionHash event,
                   tr_logIndex = ev_logIndex event,
                   tr_from = fromAddr,
                   tr_to = toAddr,
                   tr_value = v\<rparr>)\<rparr>;
          ctx = (if fromAddr \<noteq> ZERO_ADDRESS then
                   (let fromId = account_id (ev_chainId event) fromAddr;
                        fromAccount = ctx_Account ctx fromId
                    in ctx\<lparr>ctx_Account := (ctx_Account ctx)(fromId \<mapsto>
                         \<lparr>acc_id = fromId,
                          acc_chainId = ev_chainId event,
                          acc_address = fromAddr,
                          acc_balance =
                            (case fromAccount of Some a \<Rightarrow> acc_balance a | None \<Rightarrow> 0) - v,
                          acc_transferCount =
                            (case fromAccount of Some a \<Rightarrow> acc_transferCount a | None \<Rightarrow> 0) + 1,
                          acc_lastUpdatedBlock = ev_blockNumber event,
                          acc_lastUpdatedTimestamp = ev_blockTimestamp event\<rparr>)\<rparr>)
                 else ctx);
          ctx = (if toAddr \<noteq> ZERO_ADDRESS then
                   (let toId = account_id (ev_chainId event) toAddr;
                        toAccount = ctx_Account ctx toId
                    in ctx\<lparr>ctx_Account := (ctx_Account ctx)(toId \<mapsto>
                         \<lparr>acc_id = toId,
                          acc_chainId = ev_chainId event,
                          acc_address = toAddr,
                          acc_balance =
                            (case toAccount of Some a \<Rightarrow> acc_balance a | None \<Rightarrow> 0) + v,
                          acc_transferCount =
                            (case toAccount of Some a \<Rightarrow> acc_transferCount a | None \<Rightarrow> 0) + 1,
                          acc_lastUpdatedBlock = ev_blockNumber event,
                          acc_lastUpdatedTimestamp = ev_blockTimestamp event\<rparr>)\<rparr>)
                 else ctx)
      in ctx)"

text \<open>The ledger after a sequence of events, indexed from an empty store.\<close>

definition index_events :: "TransferEvent list \<Rightarrow> handlerContext" where
  "index_events events = fold handler events empty_context"

text \<open>The sum of all Account balances of a table, and of the ledger.\<close>

definition table_total :: "(string \<rightharpoonup> Account) \<Rightarrow> int" where
  "table_total A = (\<Sum>key \<in> dom A. acc_balance (the (A key)))"

definition total_balance :: "handlerContext \<Rightarrow> int" where
  "total_balance ctx = table_total (ctx_Account ctx)"

text \<open>The balance of one account of the ledger, zero when it has no row.\<close>

definition balance_of :: "handlerContext \<Rightarrow> string \<Rightarrow> int" where
  "balance_of ctx key = (case ctx_Account ctx key of Some a \<Rightarrow> acc_balance a | None \<Rightarrow> 0)"

text \<open>The columns of an Account row that the export script selects.\<close>

definition account_row :: "Account \<Rightarrow> AccountRow" where
  "account_row a =
     \<lparr>a_address = acc_address a, a_chainId = acc_chainId a,
      a_balance = acc_balance a, a_transferCount = acc_transferCount a\<rparr>"

section \<open>Notions used to state the properties\<close>

text \<open>The addresses that one transfer touches in the window that starts at \<open>cutoff\<close>.\<close>

definition touched :: "int \<Rightarrow> TransferRow \<Rightarrow> string set" where
  "touched cutoff t =
     (if t_blockTimestamp t < cutoff then {}
      else {a. a \<noteq> [] \<and> a \<noteq> ZERO \<and> (a = toLowerCase (t_from t) \<or> a = toLowerCase (t_to t))})"

text \<open>
  A flow map of 60 addresses, \<open>0x0\<close> to \<open>0x59\<close> in insertion order, whose absolute net flow
  decreases strictly along that order while the outflow alone increases.
\<close>

definition sixty_flows :: flow_map where
  "sixty_flows =
     map (\<lambda>i. (''0x'' @ toString_nat i,
               \<lparr>f_inflow = 2000, f_outflow = 1000 + int i, f_count = 1,
                f_chains = [''gnosis'']\<rparr>))
       [0..<60]"

text \<open>
  What the top-holder merge should hold for one address after all rows are merged: the
  sum of the balances and of the transfer counts of the rows of that address, and the set
  of their chain names; nothing when the address has no row.
\<close>

definition rows_of :: "string \<Rightarrow> AccountRow list \<Rightarrow> AccountRow list" where
  "rows_of addr rows = filter (\<lambda>r. toLowerCase (a_address r) = addr) rows"

definition merged_view :: "AccountRow list \<Rightarrow> string \<Rightarrow> (int \<times> int \<times> string set) option" where
  "merged_view rows addr =
     (let rs = rows_of addr rows
      in if rs = [] then None
         else Some (sum_list (map a_balance rs), sum_list (map a_transferCount rs),
                    set (map (\<lambda>r. chainName_of (a_chainId r)) rs)))"

text \<open>The same three components, read from a holder map.\<close>

definition holder_view :: "holder_map \<Rightarrow> string \<Rightarrow> (int \<times> int \<times> string set) option" where
  "holder_view holderMap addr =
     map_option (\<lambda>e. (h_balance e, h_transferCount e, set (h_chains e))) (map_of holderMap addr)"

text \<open>A store that answers every page request from one fixed sequence of rows.\<close>

definition paged :: "'a list \<Rightarrow> nat \<Rightarrow> nat \<Rightarrow> 'a list http_response" where
  "paged rows limit offset = Resp True 200 (Json None (take limit (drop offset rows)))"

text \<open>
  The Account table after the handler, written as two conditional updates: the row the
  handler writes for the sender, the row it writes for the receiver, and the table after
  each of the two steps.
\<close>

definition sender_row :: "TransferEvent \<Rightarrow> (string \<rightharpoonup> Account) \<Rightarrow> Account" where
  "sender_row event A =
     \<lparr>acc_id = account_id (ev_chainId event) (toLowerCase (ev_from event)),
      acc_chainId = ev_chainId event,
      acc_address = toLowerCase (ev_from event),
      acc_balance = (case A (account_id (ev_chainId event) (toLowerCase (ev_from event))) of
                       Some a \<Rightarrow> acc_balance a | None \<Rightarrow> 0) - ev_value event,
      acc_transferCount = (case A (account_id (ev_chainId event) (toLowerCase (ev_from event))) of
                       Some a \<Rightarrow> acc_transferCount a | None \<Rightarrow> 0) + 1,
      acc_lastUpdatedBlock = ev_blockNumber event,
      acc_lastUpdatedTimestamp = ev_blockTimestamp event\<rparr>"

definition receiver_row :: "TransferEvent \<Rightarrow> (string \<rightharpoonup> Account) \<Rightarrow> Account" where
  "receiver_row event A =
     \<lparr>acc_id = account_id (ev_chainId event) (toLowerCase (ev_to event)),
      acc_chainId = ev_chainId event,
      acc_address = toLowerCase (ev_to event),
      acc_balance = (case A (account_id (ev_chainId event) (toLowerCase (ev_to event))) of
                       Some a \<Rightarrow> acc_balance a | None \<Rightarrow> 0) + ev_value event,
      acc_transferCount = (case A (account_id (ev_chainId event) (toLowerCase (ev_to event))) of
                       Some a \<Rightarrow> acc_transferCount a | None \<Rightarrow> 0) + 1,
      acc_lastUpdatedBlock = ev_blockNumber event,
      acc_lastUpdatedTimestamp = ev_blockTimestamp event\<rparr>"

definition after_sender :: "TransferEvent \<Rightarrow> (string \<rightharpoonup> Account) \<Rightarrow> (string \<rightharpoonup> Account)" where
  "after_sender event A =
     (if toLowerCase (ev_from event) \<noteq> ZERO
      then A(account_id (ev_chainId event) (toLowerCase (ev_from event)) \<mapsto> sender_row event A)
      else A)"

definition after_receiver :: "TransferEvent \<Rightarrow> (string \<rightharpoonup> Account) \<Rightarrow> (string \<rightharpoonup> Account)" where
  "after_receiver event A =
     (if toLowerCase (ev_to event) \<noteq> ZERO
      then A(account_id (ev_chainId event) (toLowerCase (ev_to event)) \<mapsto> receiver_row event A)
      else A)"

text \<open>
  A table is clean when no row has the zero address and every address is in lower case.
\<close>

definition clean :: "(string \<rightharpoonup> Account) \<Rightarrow> bool" where
  "clean A = (\<forall>acc \<in> ran A. acc_address acc \<noteq> ZERO \<and> toLowerCase (acc_address acc) = acc_address acc)"

text \<open>Sample inputs: a mint of 10 units to \<open>0xAA\<close> on chain 1, as an event and as a row.\<close>

definition mint_event :: TransferEvent where
  "mint_event =
     \<lparr>ev_chainId = 1, ev_blockNumber = 7, ev_blockTimestamp = 9913600,
      ev_transactionHash = ''0x01'', ev_logIndex = 0,
      ev_from = ''0x0000000000000000000000000000000000000000'', ev_to = ''0xAA'',
      ev_value = 10\<rparr>"

definition mint_transfer :: TransferRow where
  "mint_transfer =
     \<lparr>t_chainId = 1, t_blockTimestamp = 9913600,
      t_from = ''0x0000000000000000000000000000000000000000'', t_to = ''0xAA'', t_value = 10\<rparr>"

text \<open>
  More sample inputs: a transfer of 5 units from \<open>0xAA\<close> to \<open>0xBB\<close>, a burn of 3 units
  by \<open>0xAA\<close>, and a transfer and an Account row on the unnamed chain 137.
\<close>

definition plain_event :: TransferEvent where
  "plain_event =
     \<lparr>ev_chainId = 1, ev_blockNumber = 8, ev_blockTimestamp = 9913700,
      ev_transactionHash = ''0x02'', ev_logIndex = 0,
      ev_from = ''0xAA'', ev_to = ''0xBB'', ev_value = 5\<rparr>"

definition burn_event :: TransferEvent where
  "burn_event =
     \<lparr>ev_chainId = 1, ev_blockNumber = 9, ev_blockTimestamp = 9913800,
      ev_transactionHash = ''0x03'', ev_logIndex = 0,
      ev_from = ''0xAA'', ev_to = ''0x0000000000000000000000000000000000000000'',
      ev_value = 3\<rparr>"



text \<open>
  The error, if any, that a query meets in a world; a log is faithful to a world when each
  entry records that error, and it is all ok when no entry records an error.
\<close>

definition thrown :: "error + 'd \<Rightarrow> error option" where
  "thrown r = (case r of Inl e \<Rightarrow> Some e | Inr d \<Rightarrow> None)"

definition answer_error :: "world \<Rightarrow> query \<Rightarrow> error option" where
  "answer_error W q =
     (case q of
        RecentTransfers cutoff limit offset \<Rightarrow> thrown (graphqlQuery (w_transfers W cutoff limit offset))
      | TotalCount \<Rightarrow> thrown (graphqlQuery (w_count W))
      | AccountBalances batch \<Rightarrow> thrown (graphqlQuery (w_balances W batch))
      | TopAccounts limit offset \<Rightarrow> thrown (graphqlQuery (w_topAccounts W limit offset)))"

definition faithful :: "world \<Rightarrow> log \<Rightarrow> bool" where
  "faithful W lg = list_all (\<lambda>entry. snd entry = answer_error W (fst entry)) lg"

definition all_ok :: "log \<Rightarrow> bool" where
  "all_ok lg = list_all (\<lambda>entry. snd entry = None) lg"






text \<open>The part of a document row that the ranking computed, without the balance.\<close>

definition flow_part :: "BalanceRow \<Rightarrow> FlowRow" where
  "flow_part r =
     \<lparr>r_address = r_address r, r_inflow = r_inflow r, r_outflow = r_outflow r,
      r_net_flow = r_net_flow r, r_transfer_count = r_transfer_count r,
      r_chains = r_chains r\<rparr>"



text \<open>
  A sample world. The store holds two transfers, one 20 days and one a day before the
  clock, and three Account rows, none for the address \<open>0xcc\<close>; the label file is missing.
\<close>

definition sample_transfers :: "TransferRow list" where
  "sample_transfers =
     [\<lparr>t_chainId = 1, t_blockTimestamp = 8272000, t_from = ''0xbb'', t_to = ''0xcc'', t_value = 40\<rparr>,
      \<lparr>t_chainId = 1, t_blockTimestamp = 9913600, t_from = ''0xaa'', t_to = ''0xbb'', t_value = 100\<rparr>]"

definition sample_rows :: "AccountRow list" where
  "sample_rows =
     [\<lparr>a_address = ''0xaa'', a_chainId = 1, a_balance = 5, a_transferCount = 2\<rparr>,
      \<lparr>a_address = ''0xbb'', a_chainId = 100, a_balance = 7, a_transferCount = 1\<rparr>,
      \<lparr>a_address = ''0xaa'', a_chainId = 100, a_balance = 3, a_transferCount = 4\<rparr>]"

definition sample_world :: world where
  "sample_world =
     \<lparr>w_now = 10000000,
      w_transfers = (\<lambda>cutoff. paged (filter (\<lambda>t. cutoff \<le> t_blockTimestamp t) sample_transfers)),
      w_count = Resp True 200 (Json None 2),
      w_balances = (\<lambda>batch. Resp True 200
                      (Json None (filter (\<lambda>r. a_address r \<in> set batch) sample_rows))),
      w_topAccounts = paged sample_rows,
      w_labels = None,
      w_synced_at = ''2026-01-01T00:00:00.000Z'',
      w_write = WriteOk\<rparr>"

text \<open>
  The part of the log that one stage of a run adds agrees with the stage's result: it is
  faithful, and it records an error exactly when the stage threw.
\<close>

definition stage_ok :: "world \<Rightarrow> error + 'a \<Rightarrow> log \<Rightarrow> bool" where
  "stage_ok W res new =
     (faithful W new \<and> (case res of Inl e \<Rightarrow> \<not> all_ok new | Inr x \<Rightarrow> all_ok new))"


text \<open>
  The addresses, in lower case, of the Account rows that the store returned to the
  balance queries that a log records as successful.
\<close>

definition returned_addresses :: "world \<Rightarrow> log \<Rightarrow> string set" where
  "returned_addresses W lg =
     {toLowerCase (a_address row) |row batch rows.
        (AccountBalances batch, None) \<in> set lg
        \<and> graphqlQuery (w_balances W batch) = Inr rows \<and> row \<in> set rows}"

text \<open>The document and the log of the run in the sample world.\<close>

definition sample_summary :: summary where
  "sample_summary =
     \<lparr>top_7d =
        [\<lparr>r_address = ''0xaa'', r_inflow = ''0'', r_outflow = ''0.0000000000000001'',
          r_net_flow = ''-0.0000000000000001'', r_transfer_count = 1,
          r_chains = [''ethereum''], r_balance = ''0.000000000000000008''\<rparr>,
         \<lparr>r_address = ''0xbb'', r_inflow = ''0.0000000000000001'', r_outflow = ''0'',
          r_net_flow = ''0.0000000000000001'', r_transfer_count = 1,
          r_chains = [''ethereum''], r_balance = ''0.000000000000000007''\<rparr>],
      top_30d =
        [\<lparr>r_address = ''0xaa'', r_inflow = ''0'', r_outflow = ''0.0000000000000001'',
          r_net_flow = ''-0.0000000000000001'', r_transfer_count = 1,
          r_chains = [''ethereum''], r_balance = ''0.000000000000000008''\<rparr>,
         \<lparr>r_address = ''0xbb'', r_inflow = ''0.0000000000000001'',
          r_outflow = ''0.00000000000000004'', r_net_flow = ''0.00000000000000006'',
          r_transfer_count = 2, r_chains = [''ethereum''],
          r_balance = ''0.000000000000000007''\<rparr>,
         \<lparr>r_address = ''0xcc'', r_inflow = ''0.00000000000000004'', r_outflow = ''0'',
          r_net_flow = ''0.00000000000000004'', r_transfer_count = 1,
          r_chains = [''ethereum''], r_balance = ''0''\<rparr>],
      top_holders =
        [\<lparr>hr_address = ''0xaa'', hr_balance = ''0.000000000000000008'',
          hr_transfer_count = 6, hr_chains = [''ethereum'', ''gnosis'']\<rparr>,
         \<lparr>hr_address = ''0xbb'', hr_balance = ''0.000000000000000007'',
          hr_transfer_count = 1, hr_chains = [''gnosis'']\<rparr>],
      labels = [], synced_at = ''2026-01-01T00:00:00.000Z'', total_transfers = 2\<rparr>"

definition sample_log :: log where
  "sample_log =
     [(RecentTransfers 7408000 10000 0, None), (TotalCount, None),
      (AccountBalances [''0xaa'', ''0xbb'', ''0xcc''], None), (TopAccounts 5000 0, None)]"

section \<open>Properties of the decimal codec\<close>

lemma digits_val_Nil [simp]: "digits_val [] = 0"
  by (simp add: digits_val_def)

lemma digits_val_snoc [simp]: "digits_val (s @ [c]) = 10 * digits_val s + digit_val c"
  by (simp add: digits_val_def)

lemma digit_val_digit_char [simp]: "d < 10 \<Longrightarrow> digit_val (digit_char d) = d"
  by (simp add: digit_val_def digit_char_def)

lemma is_digit_digit_char [simp]: "d < 10 \<Longrightarrow> is_digit (digit_char d)"
  by (simp add: is_digit_def digit_char_def)

lemma digit_char_zero [simp]: "digit_char 0 = CHR ''0''"
  by (simp add: digit_char_def char_of_eq_iff)

lemma digit_char_eq_zero_iff: "d < 10 \<Longrightarrow> digit_char d = CHR ''0'' \<longleftrightarrow> d = 0"
proof
  assume "d < 10" and "digit_char d = CHR ''0''"
  then have "digit_val (digit_char d) = digit_val (digit_char 0)" by simp
  with \<open>d < 10\<close> show "d = 0" by (simp del: digit_char_zero)
qed simp

lemma is_digit_zero [simp]: "is_digit (CHR ''0'')"
  by (simp add: is_digit_def)

lemma digit_val_zero [simp]: "digit_val (CHR ''0'') = 0"
  by (simp add: digit_val_def)

lemma digits_val_append: "digits_val (a @ b) = digits_val a * 10 ^ length b + digits_val b"
  by (induction b rule: rev_induct) (simp_all add: algebra_simps flip: append_assoc)

lemma digits_val_replicate_zero [simp]: "digits_val (replicate k (CHR ''0'')) = 0"
proof (induction k)
  case (Suc k)
  have "replicate (Suc k) (CHR ''0'') = replicate k (CHR ''0'') @ [CHR ''0'']"
    by (simp add: replicate_append_same)
  with Suc show ?case by (simp only: digits_val_snoc) simp
qed simp

lemma toString_nat_digits: "list_all is_digit (toString_nat n)"
  by (induction n rule: toString_nat.induct) (subst toString_nat.simps, simp)

lemma toString_nat_not_Nil [simp]: "toString_nat n \<noteq> []"
  by (subst toString_nat.simps) simp

lemma digits_val_toString_nat [simp]: "digits_val (toString_nat n) = n"
  by (induction n rule: toString_nat.induct) (subst toString_nat.simps, simp add: digits_val_def)

lemma hd_toString_nat: "hd (toString_nat n) = CHR ''0'' \<longleftrightarrow> n = 0"
proof (induction n rule: toString_nat.induct)
  case (1 n)
  show ?case
  proof (cases "n < 10")
    case True
    then show ?thesis by (subst toString_nat.simps) (simp add: digit_char_eq_zero_iff)
  next
    case False
    then have "n div 10 \<noteq> 0" by simp
    with False 1 show ?thesis by (subst toString_nat.simps) simp
  qed
qed

lemma length_toString_nat: "n < 10 ^ Suc k \<Longrightarrow> length (toString_nat n) \<le> Suc k"
proof (induction k arbitrary: n)
  case 0
  then show ?case by (subst toString_nat.simps) simp
next
  case (Suc k)
  show ?case
  proof (cases "n < 10")
    case True
    then show ?thesis by (subst toString_nat.simps) simp
  next
    case False
    from Suc.prems have "n div 10 < 10 ^ Suc k" by (simp add: less_mult_imp_div_less mult.commute)
    from Suc.IH [OF this] False show ?thesis by (subst toString_nat.simps) simp
  qed
qed

lemma strip_trailing_zeros_decomp:
  "\<exists>j. s = strip_trailing_zeros s @ replicate j (CHR ''0'')"
proof -
  have "rev s = takeWhile (\<lambda>c. c = CHR ''0'') (rev s) @ dropWhile (\<lambda>c. c = CHR ''0'') (rev s)"
    by simp
  moreover have "takeWhile (\<lambda>c. c = CHR ''0'') (rev s)
      = replicate (length (takeWhile (\<lambda>c. c = CHR ''0'') (rev s))) (CHR ''0'')"
    by (rule replicate_length_same [symmetric]) (auto dest: set_takeWhileD)
  ultimately have "rev (rev s) = rev (replicate (length (takeWhile (\<lambda>c. c = CHR ''0'') (rev s))) (CHR ''0'')
      @ dropWhile (\<lambda>c. c = CHR ''0'') (rev s))"
    by simp
  then show ?thesis
    by (auto simp: strip_trailing_zeros_def)
qed

lemma last_strip_trailing_zeros:
  "strip_trailing_zeros s \<noteq> [] \<Longrightarrow> last (strip_trailing_zeros s) \<noteq> CHR ''0''"
  unfolding strip_trailing_zeros_def
  using hd_dropWhile [of "\<lambda>c. c = CHR ''0''" "rev s"] by (simp only: last_rev rev_is_Nil_conv) simp

lemma set_strip_trailing_zeros: "set (strip_trailing_zeros s) \<subseteq> set s"
  by (auto simp: strip_trailing_zeros_def dest: set_dropWhileD)

lemma length_strip_trailing_zeros: "length (strip_trailing_zeros s) \<le> length s"
  by (simp add: strip_trailing_zeros_def length_dropWhile_le [where xs = "rev s", simplified])

lemma bigint_whole_frac:
  fixes a :: int
  assumes "0 \<le> a"
  shows "int (nat (a div 10 ^ 18)) * 10 ^ 18 + int (nat (a mod 10 ^ 18)) = a"
  using assms by (simp add: pos_imp_zdiv_nonneg_iff)

lemma fracStr_props:
  assumes "0 < n" "n < 10 ^ 18"
  defines "f \<equiv> strip_trailing_zeros (padStart 18 (CHR ''0'') (toString_nat n))"
  shows "f \<noteq> []" "list_all is_digit f" "length f \<le> 18" "last f \<noteq> CHR ''0''"
    "digits_val f * 10 ^ (18 - length f) = n"
proof -
  let ?p = "padStart 18 (CHR ''0'') (toString_nat n)"
  have len: "length (toString_nat n) \<le> 18"
    using length_toString_nat [of n 17] assms by simp
  then have lp: "length ?p = 18" by (simp add: padStart_def)
  have vp: "digits_val ?p = n" by (simp add: padStart_def digits_val_append)
  have dp: "list_all is_digit ?p"
    using toString_nat_digits [of n] by (auto simp: padStart_def list_all_iff)
  obtain j where j: "?p = f @ replicate j (CHR ''0'')"
    using strip_trailing_zeros_decomp [of ?p] by (auto simp: f_def)
  from vp j have v: "digits_val f * 10 ^ j = n"
    by (simp add: digits_val_append)
  with \<open>0 < n\<close> show "f \<noteq> []" by (cases f) auto
  then show "last f \<noteq> CHR ''0''"
    unfolding f_def by (rule last_strip_trailing_zeros)
  show "list_all is_digit f"
    using dp set_strip_trailing_zeros [of ?p] by (auto simp: f_def list_all_iff)
  from j lp have "length f + j = 18"
    by (metis length_append length_replicate)
  then have "j = 18 - length f" and "length f \<le> 18" by simp_all
  then show "length f \<le> 18" and "digits_val f * 10 ^ (18 - length f) = n"
    using v by simp_all
qed

lemmas codec_eval = bigintToDecimalString_def DECIMALS_DIVISOR_def DECIMALS_def toString_int_def
  toString_nat.simps padStart_def strip_trailing_zeros_def digit_char_def char_of_eq_iff Let_def

text \<open>
  Claim C1. For every integer \<open>raw\<close>, \<open>bigintToDecimalString raw\<close> is the minimal decimal
  string of \<open>raw / 10^18\<close>: an optional \<open>-\<close>, present exactly when \<open>raw\<close> is negative; the
  integer part \<open>w\<close>, digits only and without a leading zero unless it is the single digit
  \<open>0\<close>; and a fraction \<open>f\<close> of at most 18 digits, present (after a dot) exactly when the
  magnitude is not a multiple of \<open>10^18\<close> and never ending in \<open>0\<close>. Read back, \<open>w\<close> and
  \<open>f\<close> give the absolute value of \<open>raw\<close>. The four examples of the specification hold.
\<close>

theorem bigintToDecimalString_minimal:
  "(\<exists>w f. bigintToDecimalString raw
            = (if raw < 0 then ''-'' else '''') @ w @ (if f = [] then '''' else ''.'' @ f)
      \<and> w \<noteq> [] \<and> list_all is_digit w \<and> (hd w = CHR ''0'' \<longrightarrow> w = ''0'')
      \<and> list_all is_digit f \<and> length f \<le> 18 \<and> (f \<noteq> [] \<longrightarrow> last f \<noteq> CHR ''0'')
      \<and> (f = [] \<longleftrightarrow> \<bar>raw\<bar> mod 10 ^ 18 = 0)
      \<and> int (digits_val w) * 10 ^ 18 + int (digits_val f) * 10 ^ (18 - length f) = \<bar>raw\<bar>)
   \<and> bigintToDecimalString 0 = ''0''
   \<and> bigintToDecimalString 1500000000000000000 = ''1.5''
   \<and> bigintToDecimalString 1000000000000000000 = ''1''
   \<and> bigintToDecimalString (- 250000000000000000) = ''-0.25''"
proof (intro conjI)
  define a where "a = \<bar>raw\<bar>"
  define wn where "wn = nat (a div 10 ^ 18)"
  define fn where "fn = nat (a mod 10 ^ 18)"
  define w where "w = toString_nat wn"
  define f where "f = (if fn = 0 then [] else
     strip_trailing_zeros (padStart 18 (CHR ''0'') (toString_nat fn)))"
  have a0: "0 \<le> a" by (simp add: a_def)
  have fn18: "fn < 10 ^ 18"
    using pos_mod_bound [of "10 ^ 18" a] by (simp add: fn_def nat_less_iff)
  have sum: "int wn * 10 ^ 18 + int fn = a"
    unfolding wn_def fn_def using a0 by (rule bigint_whole_frac)
  have wz: "0 \<le> a div 10 ^ 18" using a0 by (simp add: pos_imp_zdiv_nonneg_iff)
  have "0 \<le> a mod 10 ^ 18" by simp
  then have fz: "fn = 0 \<longleftrightarrow> a mod 10 ^ 18 = 0" unfolding fn_def by linarith
  have out: "bigintToDecimalString raw
     = (if raw < 0 then ''-'' else '''') @ w @ (if f = [] then '''' else ''.'' @ f)"
  proof (cases "fn = 0")
    case True
    with fz wz show ?thesis
      by (simp add: bigintToDecimalString_def DECIMALS_DIVISOR_def DECIMALS_def Let_def
          toString_int_def w_def wn_def f_def a_def abs_if)
  next
    case False
    then have "f \<noteq> []" using fracStr_props(1) [of fn] fn18 by (simp add: f_def)
    with False fz wz show ?thesis
      by (simp add: bigintToDecimalString_def DECIMALS_DIVISOR_def DECIMALS_def Let_def
          toString_int_def w_def wn_def f_def fn_def a_def abs_if)
  qed
  have fprops: "list_all is_digit f \<and> length f \<le> 18 \<and> (f \<noteq> [] \<longrightarrow> last f \<noteq> CHR ''0'')
      \<and> (f = [] \<longleftrightarrow> fn = 0) \<and> digits_val f * 10 ^ (18 - length f) = fn"
  proof (cases "fn = 0")
    case True
    then show ?thesis by (simp add: f_def)
  next
    case False
    then have "0 < fn" by simp
    from fracStr_props [OF this fn18] False show ?thesis by (simp add: f_def)
  qed
  have whd: "hd w = CHR ''0'' \<longrightarrow> w = ''0''"
  proof
    assume "hd w = CHR ''0''"
    then have "wn = 0" by (simp add: w_def hd_toString_nat)
    then show "w = ''0''" by (simp add: w_def toString_nat.simps)
  qed
  have val: "int (digits_val w) * 10 ^ 18 + int (digits_val f) * 10 ^ (18 - length f) = \<bar>raw\<bar>"
  proof -
    have "int (digits_val f) * 10 ^ (18 - length f) = int (digits_val f * 10 ^ (18 - length f))"
      by simp
    also have "\<dots> = int fn" using fprops by simp
    finally show ?thesis using sum by (simp add: w_def a_def)
  qed
  show "\<exists>w f. bigintToDecimalString raw
            = (if raw < 0 then ''-'' else '''') @ w @ (if f = [] then '''' else ''.'' @ f)
      \<and> w \<noteq> [] \<and> list_all is_digit w \<and> (hd w = CHR ''0'' \<longrightarrow> w = ''0'')
      \<and> list_all is_digit f \<and> length f \<le> 18 \<and> (f \<noteq> [] \<longrightarrow> last f \<noteq> CHR ''0'')
      \<and> (f = [] \<longleftrightarrow> \<bar>raw\<bar> mod 10 ^ 18 = 0)
      \<and> int (digits_val w) * 10 ^ 18 + int (digits_val f) * 10 ^ (18 - length f) = \<bar>raw\<bar>"
    apply (rule exI [of _ w], rule exI [of _ f])
    using out whd val fprops fz toString_nat_digits [of wn]
    by (simp add: w_def a_def)
qed (simp_all add: codec_eval)

text \<open>The theorem at \<open>raw = -250000000000000000\<close>, whose text is \<open>-0.25\<close>.\<close>

theorem bigintToDecimalString_minimal_witness:
  "\<exists>w f. ''-0.25'' = ''-'' @ w @ (if f = [] then '''' else ''.'' @ f)
      \<and> w \<noteq> [] \<and> list_all is_digit w \<and> (hd w = CHR ''0'' \<longrightarrow> w = ''0'')
      \<and> list_all is_digit f \<and> length f \<le> 18 \<and> (f \<noteq> [] \<longrightarrow> last f \<noteq> CHR ''0'')
      \<and> f \<noteq> []
      \<and> int (digits_val w) * 10 ^ 18 + int (digits_val f) * 10 ^ (18 - length f)
          = 250000000000000000"
proof -
  have e: "bigintToDecimalString (- 250000000000000000) = ''-0.25''"
    by (simp add: codec_eval)
  show ?thesis
    using bigintToDecimalString_minimal [of "- 250000000000000000"] unfolding e by simp
qed
section \<open>Properties of the flow aggregation\<close>

lemma map_of_add_outflow:
  "map_of (add_outflow a v c flows) =
     (map_of flows)(a \<mapsto> (flow_entry flows a)\<lparr>f_outflow := f_outflow (flow_entry flows a) + v,
        f_count := f_count (flow_entry flows a) + 1,
        f_chains := set_add c (f_chains (flow_entry flows a))\<rparr>)"
  by (simp add: add_outflow_def Let_def update_conv')

lemma map_of_add_inflow:
  "map_of (add_inflow a v c flows) =
     (map_of flows)(a \<mapsto> (flow_entry flows a)\<lparr>f_inflow := f_inflow (flow_entry flows a) + v,
        f_count := f_count (flow_entry flows a) + 1,
        f_chains := set_add c (f_chains (flow_entry flows a))\<rparr>)"
  by (simp add: add_inflow_def Let_def update_conv')

lemma keys_add_outflow: "fst ` set (add_outflow a v c flows) = insert a (fst ` set flows)"
  by (simp add: add_outflow_def Let_def dom_update)

lemma keys_add_inflow: "fst ` set (add_inflow a v c flows) = insert a (fst ` set flows)"
  by (simp add: add_inflow_def Let_def dom_update)



lemma keys_process_window:
  "fst ` set (process_window cutoff t flows) = fst ` set flows \<union> touched cutoff t"
  by (auto simp: process_window_def touched_def Let_def keys_add_outflow keys_add_inflow)


lemma keys_fold_process_window:
  "fst ` set (fold (process_window cutoff) ts flows)
     = fst ` set flows \<union> (\<Union>t \<in> set ts. touched cutoff t)"
  by (induction ts arbitrary: flows) (auto simp: keys_process_window)


lemma fold_process_transfer:
  "fold (process_transfer c7 c30) ts st
     = (fold (process_window c7) ts (fst st), fold (process_window c30) ts (snd st))"
  by (induction ts arbitrary: st) (simp_all add: process_transfer_def)

lemma compute_flows_eq:
  "compute_flows c7 c30 ts = (fold (process_window c7) ts [], fold (process_window c30) ts [])"
  by (simp add: compute_flows_def fold_process_transfer)

lemma touched_mono: "c' \<le> c \<Longrightarrow> touched c t \<subseteq> touched c' t"
  by (auto simp: touched_def)

lemma ZERO_not_touched: "ZERO \<notin> touched c t"
  by (simp add: touched_def)

subsection \<open>Sorting\<close>

lemma insert_by_insort_key:
  assumes "\<And>x y. cmp x y \<le> 0 \<longleftrightarrow> f x \<le> f y"
  shows "insert_by cmp x ys = insort_key f x ys"
  by (induction ys) (simp_all add: assms)

lemma js_sort_sort_key:
  assumes "\<And>x y. cmp x y \<le> 0 \<longleftrightarrow> f x \<le> f y"
  shows "js_sort cmp xs = sort_key f xs"
proof -
  have "insert_by cmp = insort_key f"
    by (intro ext) (rule insert_by_insort_key [OF assms])
  then show ?thesis by (simp add: js_sort_def sort_key_def)
qed

lemma js_sort_flow_cmp: "js_sort flow_cmp flows = sort_key (\<lambda>p. - abs_net (snd p)) flows"
  by (rule js_sort_sort_key) (simp add: flow_cmp_def Let_def)

lemma r_address_flow_row [simp]: "r_address (flow_row p) = fst p"
  by (simp add: flow_row_def split: prod.splits)

lemma buildTop_addresses_subset: "r_address ` set (buildTop flows) \<subseteq> fst ` set flows"
proof -
  have "set (take TOP_N (js_sort flow_cmp flows)) \<subseteq> set flows"
    using set_take_subset [of TOP_N "js_sort flow_cmp flows"] by (simp add: js_sort_flow_cmp)
  then have "fst ` set (take TOP_N (js_sort flow_cmp flows)) \<subseteq> fst ` set flows"
    by (rule image_mono)
  then show ?thesis by (simp add: buildTop_def image_image)
qed


lemma char_eq_char_of_iff:
  "c = char_of (n::nat) \<longleftrightarrow> take_bit 8 n = of_char c"
  using char_of_eq_iff [of n c] by auto

lemmas addr_eval = toLowerCase_def lower_char_def ZERO_def char_of_eq_iff char_eq_char_of_iff

subsection \<open>Self-transfers\<close>

text \<open>
  Claim C2. A transfer inside the window whose sender and receiver are the same address
  \<open>a\<close> (after lower-casing), not the zero address, leaves an entry for \<open>a\<close> whose inflow
  and outflow are both larger by the value than before (counted from zero when \<open>a\<close> had
  no entry), so that the net flow of \<open>a\<close> is unchanged by this transfer. An address is a
  non-empty string: the script treats the empty string as an absent address.
\<close>

theorem self_transfer_net_zero:
  assumes "toLowerCase (t_from t) = a" and "toLowerCase (t_to t) = a"
    and "a \<noteq> ZERO" and "a \<noteq> []" and "cutoff \<le> t_blockTimestamp t"
  shows "\<exists>e'. map_of (process_window cutoff t flows) a = Some e'
           \<and> f_inflow e' = f_inflow (flow_entry flows a) + t_value t
           \<and> f_outflow e' = f_outflow (flow_entry flows a) + t_value t
           \<and> net e' - net (flow_entry flows a) = 0"
proof -
  let ?c = "chainName_of (t_chainId t)"
  let ?mid = "add_outflow a (t_value t) ?c flows"
  have pw: "process_window cutoff t flows = add_inflow a (t_value t) ?c ?mid"
    using assms by (simp add: process_window_def Let_def)
  have mid: "flow_entry ?mid a = (flow_entry flows a)\<lparr>f_outflow := f_outflow (flow_entry flows a) + t_value t,
        f_count := f_count (flow_entry flows a) + 1,
        f_chains := set_add ?c (f_chains (flow_entry flows a))\<rparr>"
    by (simp add: flow_entry_def [of ?mid] map_of_add_outflow)
  show ?thesis
    unfolding pw by (simp add: map_of_add_inflow mid net_def)
qed

theorem self_transfer_net_zero_witness:
  "\<exists>e'. map_of (process_window 50
            \<lparr>t_chainId = 1, t_blockTimestamp = 100, t_from = ''0xAb'', t_to = ''0xaB'', t_value = 5\<rparr>
            [(''0xab'', \<lparr>f_inflow = 7, f_outflow = 2, f_count = 3, f_chains = [''gnosis'']\<rparr>)])
          ''0xab'' = Some e'
       \<and> f_inflow e' = 12 \<and> f_outflow e' = 7 \<and> net e' - 5 = 0"
  using self_transfer_net_zero [of
      "\<lparr>t_chainId = 1, t_blockTimestamp = 100, t_from = ''0xAb'', t_to = ''0xaB'', t_value = 5\<rparr>"
      "''0xab''" 50
      "[(''0xab'', \<lparr>f_inflow = 7, f_outflow = 2, f_count = 3, f_chains = [''gnosis'']\<rparr>)]"]
  by (simp add: addr_eval flow_entry_def net_def)

subsection \<open>The two windows\<close>

text \<open>
  Claim C6. Both flow maps are computed from the same retrieved transfers. Every transfer
  that the 7-day window accepts is accepted by the 30-day window, and every address that
  has an entry in the 7-day map (in particular one with a nonzero count) has an entry in
  the 30-day map.
\<close>

theorem flows7d_addresses_in_flows30d:
  assumes "map_of (fst (compute_flows (cutoff7d now) (cutoff30d now) ts)) a = Some e"
  shows "a \<in> fst ` set (snd (compute_flows (cutoff7d now) (cutoff30d now) ts))
       \<and> set (filter (\<lambda>t. \<not> t_blockTimestamp t < cutoff7d now) ts)
           \<subseteq> set (filter (\<lambda>t. \<not> t_blockTimestamp t < cutoff30d now) ts)"
proof
  have le: "cutoff30d now \<le> cutoff7d now"
    by (simp add: cutoff7d_def cutoff30d_def)
  from assms have "a \<in> fst ` set (fold (process_window (cutoff7d now)) ts [])"
    by (auto simp: compute_flows_eq dest: map_of_SomeD intro: rev_image_eqI)
  then obtain t where "t \<in> set ts" and "a \<in> touched (cutoff7d now) t"
    by (auto simp: keys_fold_process_window)
  with touched_mono [OF le] have "a \<in> (\<Union>t \<in> set ts. touched (cutoff30d now) t)"
    by blast
  then show "a \<in> fst ` set (snd (compute_flows (cutoff7d now) (cutoff30d now) ts))"
    by (simp add: compute_flows_eq keys_fold_process_window)
  from le show "set (filter (\<lambda>t. \<not> t_blockTimestamp t < cutoff7d now) ts)
           \<subseteq> set (filter (\<lambda>t. \<not> t_blockTimestamp t < cutoff30d now) ts)"
    by auto
qed

lemmas flow_eval = compute_flows_def process_transfer_def process_window_def add_outflow_def
  add_inflow_def flow_entry_def new_entry_def set_add_def chainName_of_def CHAIN_NAMES_def
  cutoff7d_def cutoff30d_def Let_def

theorem flows7d_addresses_in_flows30d_witness:
  "''0xa'' \<in> fst ` set (snd (compute_flows (cutoff7d 10000000) (cutoff30d 10000000)
      [\<lparr>t_chainId = 1, t_blockTimestamp = 8272000, t_from = ''0xB'', t_to = ''0xC'', t_value = 40\<rparr>,
       \<lparr>t_chainId = 1, t_blockTimestamp = 9913600, t_from = ''0xA'', t_to = ''0xB'', t_value = 100\<rparr>]))"
proof -
  have "map_of (fst (compute_flows (cutoff7d 10000000) (cutoff30d 10000000)
      [\<lparr>t_chainId = 1, t_blockTimestamp = 8272000, t_from = ''0xB'', t_to = ''0xC'', t_value = 40\<rparr>,
       \<lparr>t_chainId = 1, t_blockTimestamp = 9913600, t_from = ''0xA'', t_to = ''0xB'', t_value = 100\<rparr>]))
      ''0xa'' = Some \<lparr>f_inflow = 0, f_outflow = 100, f_count = 1, f_chains = [''ethereum'']\<rparr>"
    by (simp add: flow_eval addr_eval)
  from flows7d_addresses_in_flows30d [OF this] show ?thesis by (rule conjunct1)
qed

subsection \<open>Ranking\<close>

lemma sorted_wrt_desc_sort_key:
  "sorted_wrt (\<lambda>p q. abs_net (snd q) \<le> abs_net (snd p)) (sort_key (\<lambda>p. - abs_net (snd p)) flows)"
proof -
  have "sorted (map (\<lambda>p. - abs_net (snd p)) (sort_key (\<lambda>p. - abs_net (snd p)) flows))"
    by (rule sorted_sort_key)
  then show ?thesis by (simp add: sorted_map)
qed

lemma js_sort_flow_cmp_sorted:
  assumes "sorted_wrt (\<lambda>p q. abs_net (snd q) < abs_net (snd p)) flows"
  shows "js_sort flow_cmp flows = flows"
proof -
  from assms have "sorted_wrt (\<lambda>p q. - abs_net (snd p) \<le> - abs_net (snd q)) flows"
    by (rule sorted_wrt_mono_rel [rotated]) simp
  then have "sorted (map (\<lambda>p. - abs_net (snd p)) flows)"
    by (simp add: sorted_map)
  then show ?thesis
    by (simp add: js_sort_flow_cmp sort_key_id_if_sorted)
qed

lemma buildTop_ranked:
  "(length flows = 60 \<and> distinct (map fst flows)
      \<and> sorted_wrt (\<lambda>p q. abs_net (snd q) < abs_net (snd p)) flows
     \<longrightarrow> map r_address (buildTop flows) = take 50 (map fst flows)
         \<and> length (buildTop flows) = 50)
   \<and> (\<exists>ranked. buildTop flows = map flow_row (take 50 ranked)
         \<and> mset ranked = mset flows
         \<and> sorted_wrt (\<lambda>p q. abs_net (snd q) \<le> abs_net (snd p)) ranked
         \<and> (\<forall>k. filter (\<lambda>p. abs_net (snd p) = k) ranked
                 = filter (\<lambda>p. abs_net (snd p) = k) flows))"
proof (intro conjI impI)
  assume h: "length flows = 60 \<and> distinct (map fst flows)
      \<and> sorted_wrt (\<lambda>p q. abs_net (snd q) < abs_net (snd p)) flows"
  then have eq: "buildTop flows = map flow_row (take 50 flows)"
    by (simp add: buildTop_def TOP_N_def js_sort_flow_cmp_sorted)
  have "map r_address (map flow_row (take 50 flows)) = map fst (take 50 flows)"
    by (simp add: comp_def)
  then show "map r_address (buildTop flows) = take 50 (map fst flows)"
    by (simp add: eq take_map)
  from h show "length (buildTop flows) = 50"
    by (simp add: eq)
next
  let ?key = "\<lambda>p :: string \<times> FlowEntry. - abs_net (snd p)"
  have stable: "filter (\<lambda>p. abs_net (snd p) = k) (sort_key ?key flows)
      = filter (\<lambda>p. abs_net (snd p) = k) flows" for k
    using sort_key_stable [of ?key "- k" flows] by simp
  show "\<exists>ranked. buildTop flows = map flow_row (take 50 ranked)
         \<and> mset ranked = mset flows
         \<and> sorted_wrt (\<lambda>p q. abs_net (snd q) \<le> abs_net (snd p)) ranked
         \<and> (\<forall>k. filter (\<lambda>p. abs_net (snd p) = k) ranked
                 = filter (\<lambda>p. abs_net (snd p) = k) flows)"
    apply (rule exI [of _ "sort_key ?key flows"])
    using stable sorted_wrt_desc_sort_key [of flows]
    by (simp add: buildTop_def TOP_N_def js_sort_flow_cmp)
qed

lemma abs_net_eq: "abs_net e = \<bar>f_inflow e - f_outflow e\<bar>"
  by (simp add: abs_net_def net_def Let_def)

text \<open>
  Claim C4. The absolute net flow of an entry is \<open>|inflow - outflow|\<close>. \<open>buildTop\<close> outputs
  the rows of the first 50 entries of a ranking of the flow map: the ranking holds the same
  entries as the map, is in descending order of absolute net flow, and entries of equal
  absolute net flow keep the map's insertion order. In particular, when the map holds 60
  distinct addresses inserted in strictly decreasing order of absolute net flow, the
  output is exactly the first 50 of them, in that order.
\<close>

theorem buildTop_top50:
  "(length flows = 60 \<and> distinct (map fst flows)
      \<and> sorted_wrt (\<lambda>p q. \<bar>f_inflow (snd q) - f_outflow (snd q)\<bar>
                            < \<bar>f_inflow (snd p) - f_outflow (snd p)\<bar>) flows
     \<longrightarrow> map r_address (buildTop flows) = take 50 (map fst flows)
         \<and> length (buildTop flows) = 50)
   \<and> (\<exists>ranked. buildTop flows = map flow_row (take 50 ranked)
         \<and> map r_address (buildTop flows) = map fst (take 50 ranked)
         \<and> mset ranked = mset flows
         \<and> sorted_wrt (\<lambda>p q. \<bar>f_inflow (snd q) - f_outflow (snd q)\<bar>
                               \<le> \<bar>f_inflow (snd p) - f_outflow (snd p)\<bar>) ranked
         \<and> (\<forall>k. filter (\<lambda>p. \<bar>f_inflow (snd p) - f_outflow (snd p)\<bar> = k) ranked
                 = filter (\<lambda>p. \<bar>f_inflow (snd p) - f_outflow (snd p)\<bar> = k) flows))"
proof -
  from buildTop_ranked [of flows]
  obtain ranked where first: "length flows = 60 \<and> distinct (map fst flows)
        \<and> sorted_wrt (\<lambda>p q. abs_net (snd q) < abs_net (snd p)) flows
       \<longrightarrow> map r_address (buildTop flows) = take 50 (map fst flows)
           \<and> length (buildTop flows) = 50"
    and r: "buildTop flows = map flow_row (take 50 ranked)" "mset ranked = mset flows"
      "sorted_wrt (\<lambda>p q. abs_net (snd q) \<le> abs_net (snd p)) ranked"
      "\<forall>k. filter (\<lambda>p. abs_net (snd p) = k) ranked = filter (\<lambda>p. abs_net (snd p) = k) flows"
    by blast
  have "map r_address (map flow_row (take 50 ranked)) = map fst (take 50 ranked)"
    by (simp add: comp_def)
  with r(1) have "map r_address (buildTop flows) = map fst (take 50 ranked)" by simp
  with first r show ?thesis
    unfolding abs_net_eq by blast
qed

lemma toString_nat_inj: "toString_nat m = toString_nat n \<Longrightarrow> m = n"
  by (metis digits_val_toString_nat)

theorem buildTop_top50_witness:
  "length sixty_flows = 60
   \<and> map r_address (buildTop sixty_flows) = take 50 (map fst sixty_flows)
   \<and> length (buildTop sixty_flows) = 50"
proof -
  have len: "length sixty_flows = 60" by (simp add: sixty_flows_def)
  have "inj_on (\<lambda>i. ''0x'' @ toString_nat i) (set [0..<60])"
    by (rule inj_onI) (simp add: toString_nat_inj)
  then have dist: "distinct (map fst sixty_flows)"
    by (simp add: sixty_flows_def comp_def distinct_map)
  have "sorted_wrt (\<lambda>i j. \<bar>2000 - (1000 + int j)\<bar> < \<bar>2000 - (1000 + int i)\<bar>) [0..<60]"
    by (rule sorted_wrt_mono_rel [OF _ sorted_wrt_upt]) simp
  then have srt: "sorted_wrt (\<lambda>p q. \<bar>f_inflow (snd q) - f_outflow (snd q)\<bar>
                            < \<bar>f_inflow (snd p) - f_outflow (snd p)\<bar>) sixty_flows"
    by (simp add: sixty_flows_def sorted_wrt_map)
  from buildTop_top50 [of sixty_flows] len dist srt show ?thesis by simp
qed

section \<open>Properties of the top-holder merge\<close>

lemma fold_merge_page: "fold merge_page pages m = fold merge_holder (concat pages) m"
  by (induction pages arbitrary: m) (simp_all add: merge_page_def)

lemma holder_view_merge_holder:
  "holder_view (merge_holder r m) a =
     (if toLowerCase (a_address r) = a then
        (case holder_view m a of
           None \<Rightarrow> Some (a_balance r, a_transferCount r, {chainName_of (a_chainId r)})
         | Some (b, c, s) \<Rightarrow>
             Some (b + a_balance r, c + a_transferCount r, insert (chainName_of (a_chainId r)) s))
      else holder_view m a)"
  by (auto simp: holder_view_def merge_holder_def Let_def update_conv' set_add_def
      split: option.splits)

lemma merged_view_snoc:
  "merged_view (rows @ [r]) a =
     (if toLowerCase (a_address r) = a then
        (case merged_view rows a of
           None \<Rightarrow> Some (a_balance r, a_transferCount r, {chainName_of (a_chainId r)})
         | Some (b, c, s) \<Rightarrow>
             Some (b + a_balance r, c + a_transferCount r, insert (chainName_of (a_chainId r)) s))
      else merged_view rows a)"
  by (auto simp: merged_view_def rows_of_def Let_def filter_empty_conv)

lemma holder_view_fold: "holder_view (fold merge_holder rows []) a = merged_view rows a"
proof (induction rows rule: rev_induct)
  case Nil
  show ?case by (simp add: holder_view_def merged_view_def rows_of_def)
next
  case (snoc r rows)
  then show ?case by (simp add: holder_view_merge_holder merged_view_snoc)
qed

lemma merged_view_mset:
  assumes "mset rows = mset rows'"
  shows "merged_view rows a = merged_view rows' a"
proof -
  have m: "mset (rows_of a rows) = mset (rows_of a rows')"
    using assms by (simp add: rows_of_def)
  have e: "rows_of a rows = [] \<longleftrightarrow> rows_of a rows' = []"
    using m by (metis mset_zero_iff)
  have s: "sum_list (map f (rows_of a rows)) = sum_list (map f (rows_of a rows'))"
    for f :: "AccountRow \<Rightarrow> int"
    using m by (metis mset_map sum_mset_sum_list)
  have c: "set (map g (rows_of a rows)) = set (map g (rows_of a rows'))"
    for g :: "AccountRow \<Rightarrow> string"
    using m by (metis mset_map mset_eq_setD)
  show ?thesis
    unfolding merged_view_def Let_def using e s c by simp
qed

lemma fetchTopHolders_loop_pages:
  assumes "0 < limit"
  shows "\<exists>lg'. fetchTopHolders_loop (paged rows) limit offset m lg
            = Some (Inr (fold merge_holder (drop offset rows) m), lg')"
proof (induction "length rows - offset" arbitrary: offset m lg rule: less_induct)
  case less
  let ?page = "take limit (drop offset rows)"
  have q: "graphqlQuery (paged rows limit offset) = Inr ?page"
    by (simp add: paged_def)
  show ?case
  proof (cases "length ?page < limit")
    case True
    then have "?page = drop offset rows" by simp
    with True q show ?thesis
      by (subst fetchTopHolders_loop.simps) (simp add: merge_page_def)
  next
    case False
    then have full: "limit \<le> length rows - offset" by simp
    with assms have "length rows - (offset + limit) < length rows - offset" by simp
    from less [OF this, of "merge_page ?page m" "lg @ [(TopAccounts limit offset, None)]"]
    obtain lg' where
      "fetchTopHolders_loop (paged rows) limit (offset + limit) (merge_page ?page m)
         (lg @ [(TopAccounts limit offset, None)])
       = Some (Inr (fold merge_holder (drop (offset + limit) rows) (merge_page ?page m)), lg')"
      by blast
    moreover have "fold merge_holder (drop (offset + limit) rows) (merge_page ?page m)
        = fold merge_holder (drop offset rows) m"
    proof -
      have "drop offset rows = ?page @ drop (offset + limit) rows"
        by (metis append_take_drop_id drop_drop add.commute)
      then have "fold merge_holder (drop offset rows) m
          = fold merge_holder (?page @ drop (offset + limit) rows) m" by simp
      then show ?thesis by (simp add: merge_page_def)
    qed
    ultimately show ?thesis
      using False q by (subst fetchTopHolders_loop.simps) simp
  qed
qed

text \<open>
  Claim C5. Feeding pages through the per-page merge gives the same holder map as feeding
  the rows one after the other, whatever the page boundaries are. Per address, the map
  holds the sum of the balances, the sum of the transfer counts and the set of chain names
  of the rows of that address; so two paginations of the same multiset of rows agree on all
  three for every address. Against a store that serves a fixed row sequence, the loop of
  \<open>fetchTopHolders\<close> run with any positive page size (1 or 5000, say) returns the map of
  that sequence.
\<close>

theorem merge_page_boundaries_invariant:
  "fold merge_page pages holderMap = fold merge_holder (concat pages) holderMap
   \<and> holder_view (fold merge_page pages []) = merged_view (concat pages)
   \<and> (mset (concat pages1) = mset (concat pages2)
        \<longrightarrow> holder_view (fold merge_page pages1 []) = holder_view (fold merge_page pages2 []))
   \<and> (0 < limit
        \<longrightarrow> (\<exists>lg'. fetchTopHolders_loop (paged rows) limit 0 [] lg
                      = Some (Inr (fold merge_holder rows []), lg')))"
proof (intro conjI impI)
  show "fold merge_page pages holderMap = fold merge_holder (concat pages) holderMap"
    by (rule fold_merge_page)
  show "holder_view (fold merge_page pages []) = merged_view (concat pages)"
    by (rule ext) (simp add: fold_merge_page holder_view_fold)
  show "holder_view (fold merge_page pages1 []) = holder_view (fold merge_page pages2 [])"
    if "mset (concat pages1) = mset (concat pages2)"
    using merged_view_mset [OF that] by (intro ext) (simp add: fold_merge_page holder_view_fold)
  show "\<exists>lg'. fetchTopHolders_loop (paged rows) limit 0 [] lg
           = Some (Inr (fold merge_holder rows []), lg')"
    if "0 < limit"
    using fetchTopHolders_loop_pages [OF that, of rows 0 "[]" lg] by simp
qed

section \<open>Chain names\<close>

lemma set_set_add [simp]: "set (set_add x xs) = insert x (set xs)"
  by (auto simp: set_add_def)









lemma keys_holder_map:
  "fst ` set (fold merge_holder rows []) = (\<lambda>r. toLowerCase (a_address r)) ` set rows"
proof -
  have "a \<in> fst ` set (fold merge_holder rows []) \<longleftrightarrow> a \<in> (\<lambda>r. toLowerCase (a_address r)) ` set rows"
    for a
  proof -
    have "a \<in> fst ` set (fold merge_holder rows []) \<longleftrightarrow> holder_view (fold merge_holder rows []) a \<noteq> None"
      by (simp add: holder_view_def dom_map_of_conv_image_fst [symmetric] domIff)
    also have "\<dots> \<longleftrightarrow> rows_of a rows \<noteq> []"
      by (simp add: holder_view_fold merged_view_def Let_def)
    also have "\<dots> \<longleftrightarrow> a \<in> (\<lambda>r. toLowerCase (a_address r)) ` set rows"
      by (auto simp: rows_of_def filter_empty_conv)
    finally show ?thesis .
  qed
  then show ?thesis by blast
qed




lemma js_sort_holder_cmp:
  "js_sort holder_cmp m = sort_key (\<lambda>p. - h_balance (snd p)) m"
  by (rule js_sort_sort_key) (simp add: holder_cmp_def)

lemma hr_address_holder_row [simp]: "hr_address (holder_row p) = fst p"
  by (simp add: holder_row_def split: prod.splits)



section \<open>Properties of the Transfer handler\<close>

lemma ZERO_ADDRESS_eq: "ZERO_ADDRESS = ZERO"
  by (simp add: ZERO_ADDRESS_def ZERO_def)

lemma lower_char_idem [simp]: "lower_char (lower_char c) = lower_char c"
proof (cases "65 \<le> (of_char c :: nat) \<and> (of_char c :: nat) \<le> 90")
  case True
  then have "(of_char (char_of (of_char c + 32 :: nat)) :: nat) = of_char c + 32"
    by (simp only: of_char_of) simp
  with True show ?thesis
    by (simp only: lower_char_def Let_def) simp
next
  case False
  then have "lower_char c = c"
    unfolding lower_char_def Let_def by (simp only: if_not_P if_False)
  then show ?thesis by simp
qed

lemma toLowerCase_idem [simp]: "toLowerCase (toLowerCase s) = toLowerCase s"
  by (simp add: toLowerCase_def)

lemma ctx_Account_handler:
  "ctx_Account (handler event ctx) = after_receiver event (after_sender event (ctx_Account ctx))"
  by (simp add: handler_def Let_def after_receiver_def after_sender_def sender_row_def
      receiver_row_def ZERO_ADDRESS_eq)

lemma clean_upd:
  "clean A \<Longrightarrow> acc_address v \<noteq> ZERO \<Longrightarrow> toLowerCase (acc_address v) = acc_address v
     \<Longrightarrow> clean (A(k \<mapsto> v))"
  unfolding clean_def ran_def by (auto split: if_splits)

lemma clean_handler: "clean (ctx_Account ctx) \<Longrightarrow> clean (ctx_Account (handler event ctx))"
  by (simp add: ctx_Account_handler after_receiver_def after_sender_def clean_upd
      sender_row_def receiver_row_def)

lemma clean_fold_handler:
  "clean (ctx_Account ctx) \<Longrightarrow> clean (ctx_Account (fold handler events ctx))"
  by (induction events arbitrary: ctx) (simp_all add: clean_handler)

lemma clean_index_events: "clean (ctx_Account (index_events events))"
  unfolding index_events_def
  by (rule clean_fold_handler) (simp add: clean_def empty_context_def)

lemma after_sender_cases:
  "after_sender event A k = A k
   \<or> (\<exists>acc. after_sender event A k = Some acc \<and> acc_address acc \<noteq> ZERO)"
  by (simp add: after_sender_def sender_row_def)

lemma after_receiver_cases:
  "after_receiver event A k = A k
   \<or> (\<exists>acc. after_receiver event A k = Some acc \<and> acc_address acc \<noteq> ZERO)"
  by (simp add: after_receiver_def receiver_row_def)

lemma handler_written_rows:
  assumes "ctx_Account (handler event ctx) key \<noteq> ctx_Account ctx key"
  shows "\<exists>acc. ctx_Account (handler event ctx) key = Some acc \<and> acc_address acc \<noteq> ZERO"
  using assms after_sender_cases [of event "ctx_Account ctx" key]
    after_receiver_cases [of event "after_sender event (ctx_Account ctx)" key]
  unfolding ctx_Account_handler by metis

subsection \<open>The zero address\<close>

lemma ZERO_not_in_flows: "ZERO \<notin> fst ` set (fold (process_window cutoff) ts [])"
  by (simp add: keys_fold_process_window ZERO_not_touched)

lemma rank_holders_addresses_subset: "hr_address ` set (rank_holders m) \<subseteq> fst ` set m"
proof -
  have "set (take TOP_N (js_sort holder_cmp m)) \<subseteq> set m"
    using set_take_subset [of TOP_N "js_sort holder_cmp m"] by (simp add: js_sort_holder_cmp)
  then have "fst ` set (take TOP_N (js_sort holder_cmp m)) \<subseteq> fst ` set m"
    by (rule image_mono)
  then show ?thesis by (simp add: rank_holders_def image_image)
qed

lemma ZERO_not_in_holders:
  assumes "clean A" and "\<forall>row \<in> set rows. \<exists>acc \<in> ran A. row = account_row acc"
  shows "ZERO \<notin> hr_address ` set (rank_holders (fold merge_holder rows []))"
proof
  assume "ZERO \<in> hr_address ` set (rank_holders (fold merge_holder rows []))"
  with rank_holders_addresses_subset
  have "ZERO \<in> fst ` set (fold merge_holder rows [])" by blast
  then obtain row where row: "row \<in> set rows" "ZERO = toLowerCase (a_address row)"
    by (auto simp: keys_holder_map)
  from assms(2) row(1) obtain acc where acc: "acc \<in> ran A" "row = account_row acc" by blast
  from assms(1) acc(1) have "acc_address acc \<noteq> ZERO" "toLowerCase (acc_address acc) = acc_address acc"
    by (auto simp: clean_def)
  with row(2) acc(2) show False by (simp add: account_row_def)
qed

text \<open>
  Claim C3. For every list of retrieved transfers and every pair of cutoffs, the zero
  address is not an address of the 7-day ranking nor of the 30-day ranking. The Transfer
  handler never writes an Account row whose address is the zero address, so the ledger
  indexed from any sequence of events holds no such row; and when the rows that the store
  returns are rows of that ledger, the zero address is not an address of the top-holder
  ranking.
\<close>

theorem zero_address_never_ranked:
  "ZERO \<notin> r_address ` set (buildTop (fst (compute_flows c7 c30 ts)))
   \<and> ZERO \<notin> r_address ` set (buildTop (snd (compute_flows c7 c30 ts)))
   \<and> (\<forall>key. ctx_Account (handler event ctx) key \<noteq> ctx_Account ctx key
         \<longrightarrow> (\<exists>acc. ctx_Account (handler event ctx) key = Some acc \<and> acc_address acc \<noteq> ZERO))
   \<and> (\<forall>acc \<in> ran (ctx_Account (index_events events)). acc_address acc \<noteq> ZERO)
   \<and> ((\<forall>row \<in> set rows. \<exists>acc \<in> ran (ctx_Account (index_events events)). row = account_row acc)
        \<longrightarrow> ZERO \<notin> hr_address ` set (rank_holders (fold merge_holder rows [])))"
proof (intro conjI allI impI)
  show "ZERO \<notin> r_address ` set (buildTop (fst (compute_flows c7 c30 ts)))"
    using buildTop_addresses_subset [of "fold (process_window c7) ts []"]
      ZERO_not_in_flows [of c7 ts] by (auto simp: compute_flows_eq)
  show "ZERO \<notin> r_address ` set (buildTop (snd (compute_flows c7 c30 ts)))"
    using buildTop_addresses_subset [of "fold (process_window c30) ts []"]
      ZERO_not_in_flows [of c30 ts] by (auto simp: compute_flows_eq)
  show "\<exists>acc. ctx_Account (handler event ctx) key = Some acc \<and> acc_address acc \<noteq> ZERO"
    if "ctx_Account (handler event ctx) key \<noteq> ctx_Account ctx key" for key
    using that by (rule handler_written_rows)
  show "\<forall>acc \<in> ran (ctx_Account (index_events events)). acc_address acc \<noteq> ZERO"
    using clean_index_events [of events] by (simp add: clean_def)
  show "ZERO \<notin> hr_address ` set (rank_holders (fold merge_holder rows []))"
    if "\<forall>row \<in> set rows. \<exists>acc \<in> ran (ctx_Account (index_events events)). row = account_row acc"
    using clean_index_events that by (rule ZERO_not_in_holders)
qed

lemma digit_char_lits:
  "digit_char 0 = CHR ''0''" "digit_char 1 = CHR ''1''" "digit_char 2 = CHR ''2''"
  "digit_char 3 = CHR ''3''" "digit_char 4 = CHR ''4''" "digit_char 5 = CHR ''5''"
  "digit_char 6 = CHR ''6''" "digit_char 7 = CHR ''7''" "digit_char 8 = CHR ''8''"
  "digit_char 9 = CHR ''9''" "digit_char (Suc 0) = CHR ''1''"
  by (simp_all add: digit_char_def char_of_eq_iff)

lemma lower_char_lits:
  "lower_char (CHR ''A'') = CHR ''a''" "lower_char (CHR ''B'') = CHR ''b''"
  "lower_char (CHR ''C'') = CHR ''c''" "lower_char (CHR ''D'') = CHR ''d''"
  "lower_char (CHR ''E'') = CHR ''e''" "lower_char (CHR ''F'') = CHR ''f''"
  "lower_char (CHR ''X'') = CHR ''x''"
  by (simp_all add: lower_char_def char_of_eq_iff)

lemma lower_char_other:
  "\<not> (65 \<le> (of_char c :: nat) \<and> (of_char c :: nat) \<le> 90) \<Longrightarrow> lower_char c = c"
  by (simp only: lower_char_def Let_def if_not_P if_False)

lemmas text_eval = toString_int_def toString_nat.simps digit_char_lits account_id_def

lemmas lower_eval = toLowerCase_def lower_char_lits lower_char_other ZERO_def

lemma mint_ledger:
  "ctx_Account (index_events [mint_event])
     = [''1_0xaa'' \<mapsto> receiver_row mint_event Map.empty]"
  by (simp add: index_events_def ctx_Account_handler after_sender_def after_receiver_def
      empty_context_def mint_event_def lower_eval text_eval)

theorem zero_address_never_ranked_witness:
  "(\<exists>acc. ctx_Account (handler mint_event empty_context) ''1_0xaa'' = Some acc
          \<and> acc_address acc \<noteq> ZERO)
   \<and> ZERO \<notin> hr_address ` set (rank_holders
        (fold merge_holder [account_row (receiver_row mint_event Map.empty)] []))"
proof -
  have changed: "ctx_Account (handler mint_event empty_context) ''1_0xaa''
      \<noteq> ctx_Account empty_context ''1_0xaa''"
    using mint_ledger by (simp add: index_events_def empty_context_def)
  have rows: "\<forall>row \<in> set [account_row (receiver_row mint_event Map.empty)].
      \<exists>acc \<in> ran (ctx_Account (index_events [mint_event])). row = account_row acc"
    by (simp add: mint_ledger)
  from zero_address_never_ranked [of 0 0 "[mint_transfer]" mint_event empty_context
      "[mint_event]" "[account_row (receiver_row mint_event Map.empty)]"] changed rows
  show ?thesis by blast
qed

subsection \<open>Total balance\<close>

lemma table_total_upd:
  assumes "finite (dom A)"
  shows "table_total (A(k \<mapsto> v))
       = table_total A - (case A k of Some a \<Rightarrow> acc_balance a | None \<Rightarrow> 0) + acc_balance v"
proof -
  let ?f = "\<lambda>key. acc_balance (the (A key))"
  let ?g = "\<lambda>key. acc_balance (the ((A(k \<mapsto> v)) key))"
  have "table_total (A(k \<mapsto> v)) = sum ?g (insert k (dom A))"
    by (simp add: table_total_def)
  also have "\<dots> = ?g k + sum ?g (dom A - {k})"
    using assms by (rule sum.insert_remove)
  also have "sum ?g (dom A - {k}) = sum ?f (dom A - {k})"
    by (rule sum.cong) simp_all
  finally have "table_total (A(k \<mapsto> v)) = ?g k + sum ?f (dom A - {k})" .
  then have new: "table_total (A(k \<mapsto> v)) = acc_balance v + sum ?f (dom A - {k})"
    by (simp only: fun_upd_same option.sel)
  show ?thesis
  proof (cases "A k")
    case None
    then have "dom A - {k} = dom A" by auto
    with new None show ?thesis by (simp add: table_total_def)
  next
    case (Some a)
    then have "k \<in> dom A" by auto
    with assms have "sum ?f (dom A) = ?f k + sum ?f (dom A - {k})"
      by (rule sum.remove)
    with new Some show ?thesis by (simp add: table_total_def)
  qed
qed

lemma table_total_after_sender:
  assumes "finite (dom A)"
  shows "table_total (after_sender event A)
       = table_total A - (if toLowerCase (ev_from event) \<noteq> ZERO then ev_value event else 0)"
  using assms by (simp add: after_sender_def table_total_upd sender_row_def split: option.splits)

lemma table_total_after_receiver:
  assumes "finite (dom A)"
  shows "table_total (after_receiver event A)
       = table_total A + (if toLowerCase (ev_to event) \<noteq> ZERO then ev_value event else 0)"
  using assms by (simp add: after_receiver_def table_total_upd receiver_row_def split: option.splits)

lemma finite_dom_after_sender: "finite (dom A) \<Longrightarrow> finite (dom (after_sender event A))"
  by (simp add: after_sender_def)

lemma total_balance_handler:
  assumes "finite (dom (ctx_Account ctx))"
  shows "total_balance (handler event ctx)
       = total_balance ctx
         - (if toLowerCase (ev_from event) \<noteq> ZERO then ev_value event else 0)
         + (if toLowerCase (ev_to event) \<noteq> ZERO then ev_value event else 0)"
  using assms
  by (simp only: total_balance_def ctx_Account_handler table_total_after_receiver
      table_total_after_sender finite_dom_after_sender)

lemma account_id_inj [simp]: "account_id c a = account_id c b \<longleftrightarrow> a = b"
  by (simp add: account_id_def)

lemma balance_of_handler_distinct:
  assumes "toLowerCase (ev_from event) \<noteq> ZERO" and "toLowerCase (ev_to event) \<noteq> ZERO"
    and "toLowerCase (ev_from event) \<noteq> toLowerCase (ev_to event)"
  shows "balance_of (handler event ctx) (account_id (ev_chainId event) (toLowerCase (ev_from event)))
           = balance_of ctx (account_id (ev_chainId event) (toLowerCase (ev_from event)))
             - ev_value event"
    and "balance_of (handler event ctx) (account_id (ev_chainId event) (toLowerCase (ev_to event)))
           = balance_of ctx (account_id (ev_chainId event) (toLowerCase (ev_to event)))
             + ev_value event"
  using assms
  by (simp_all add: balance_of_def ctx_Account_handler after_receiver_def after_sender_def
      sender_row_def receiver_row_def)

text \<open>
  Claim C9. Addresses are compared in lower case, as the handler does. On a finite ledger:
  a transfer between two distinct addresses, neither the zero address, leaves the sum of
  all Account balances unchanged, the sender's balance going down by the value and the
  receiver's going up by it; a transfer from the zero address to another address (a mint)
  raises the sum by the value; a transfer from another address to the zero address (a
  burn) lowers it by the value.
\<close>

theorem handler_conserves_total_balance:
  assumes "finite (dom (ctx_Account ctx))"
  shows "(toLowerCase (ev_from event) \<noteq> ZERO \<and> toLowerCase (ev_to event) \<noteq> ZERO
          \<and> toLowerCase (ev_from event) \<noteq> toLowerCase (ev_to event)
          \<longrightarrow> total_balance (handler event ctx) = total_balance ctx
            \<and> balance_of (handler event ctx)
                  (account_id (ev_chainId event) (toLowerCase (ev_from event)))
                = balance_of ctx (account_id (ev_chainId event) (toLowerCase (ev_from event)))
                  - ev_value event
            \<and> balance_of (handler event ctx)
                  (account_id (ev_chainId event) (toLowerCase (ev_to event)))
                = balance_of ctx (account_id (ev_chainId event) (toLowerCase (ev_to event)))
                  + ev_value event)
       \<and> (toLowerCase (ev_from event) = ZERO \<and> toLowerCase (ev_to event) \<noteq> ZERO
          \<longrightarrow> total_balance (handler event ctx) = total_balance ctx + ev_value event)
       \<and> (toLowerCase (ev_from event) \<noteq> ZERO \<and> toLowerCase (ev_to event) = ZERO
          \<longrightarrow> total_balance (handler event ctx) = total_balance ctx - ev_value event)"
  using total_balance_handler [OF assms, of event] balance_of_handler_distinct [of event ctx]
  by simp

theorem handler_conserves_total_balance_witness:
  "total_balance (handler plain_event empty_context) = total_balance empty_context
   \<and> balance_of (handler plain_event empty_context) ''1_0xaa'' = - 5
   \<and> balance_of (handler plain_event empty_context) ''1_0xbb'' = 5
   \<and> total_balance (handler mint_event empty_context) = total_balance empty_context + 10
   \<and> total_balance (handler burn_event empty_context) = total_balance empty_context - 3"
proof -
  have fin: "finite (dom (ctx_Account empty_context))"
    by (simp add: empty_context_def)
  have ids: "account_id 1 ''0xaa'' = ''1_0xaa''" "account_id 1 ''0xbb'' = ''1_0xbb''"
    by (simp_all add: text_eval)
  have zero: "balance_of empty_context k = 0" for k
    by (simp add: balance_of_def empty_context_def)
  have p: "toLowerCase (ev_from plain_event) = ''0xaa''" "toLowerCase (ev_to plain_event) = ''0xbb''"
      "ev_chainId plain_event = 1" "ev_value plain_event = 5"
    by (simp_all add: plain_event_def lower_eval)
  have m: "toLowerCase (ev_from mint_event) = ZERO" "toLowerCase (ev_to mint_event) = ''0xaa''"
      "ev_value mint_event = 10"
    by (simp_all add: mint_event_def lower_eval)
  have b: "toLowerCase (ev_from burn_event) = ''0xaa''" "toLowerCase (ev_to burn_event) = ZERO"
      "ev_value burn_event = 3"
    by (simp_all add: burn_event_def lower_eval)
  have nz: "''0xaa'' \<noteq> ZERO" "''0xbb'' \<noteq> ZERO"
    by (simp_all add: ZERO_def)
  from handler_conserves_total_balance [OF fin, of plain_event]
    handler_conserves_total_balance [OF fin, of mint_event]
    handler_conserves_total_balance [OF fin, of burn_event]
  show ?thesis
    by (simp add: p m b nz ids zero)
qed

subsection \<open>Chains without a name\<close>



theorem merge_page_boundaries_invariant_witness:
  "holder_view (fold merge_page [[sample_rows ! 0], [sample_rows ! 1], [sample_rows ! 2]] [])
     = holder_view (fold merge_page [[sample_rows ! 2, sample_rows ! 0, sample_rows ! 1]] [])
   \<and> (\<exists>lg1 lg5000.
         fetchTopHolders_loop (paged sample_rows) 1 0 [] []
           = Some (Inr (fold merge_holder sample_rows []), lg1)
       \<and> fetchTopHolders_loop (paged sample_rows) 5000 0 [] []
           = Some (Inr (fold merge_holder sample_rows []), lg5000))"
proof -
  have m: "mset (concat [[sample_rows ! 0], [sample_rows ! 1], [sample_rows ! 2]])
      = mset (concat [[sample_rows ! 2, sample_rows ! 0, sample_rows ! 1]])"
    by simp
  have l: "(0::nat) < 1" "(0::nat) < 5000" by simp_all
  from merge_page_boundaries_invariant
         [of "[]" "[]" "[[sample_rows ! 0], [sample_rows ! 1], [sample_rows ! 2]]"
             "[[sample_rows ! 2, sample_rows ! 0, sample_rows ! 1]]" 1 sample_rows "[]"]
       merge_page_boundaries_invariant [of "[]" "[]" "[]" "[]" 5000 sample_rows "[]"] m l
  show ?thesis by blast
qed

section \<open>Runs, queries and the output file\<close>

lemma all_ok_append [simp]: "all_ok (a @ b) \<longleftrightarrow> all_ok a \<and> all_ok b"
  by (simp add: all_ok_def)

lemma faithful_append [simp]: "faithful W (a @ b) \<longleftrightarrow> faithful W a \<and> faithful W b"
  by (simp add: faithful_def)

lemma all_ok_Nil [simp]: "all_ok []"
  by (simp add: all_ok_def)

lemma faithful_Nil [simp]: "faithful W []"
  by (simp add: faithful_def)

lemma stage_ok_Cons_ok:
  "answer_error W q = None \<Longrightarrow> stage_ok W res new \<Longrightarrow> stage_ok W res ((q, None) # new)"
  by (simp add: stage_ok_def faithful_def all_ok_def split: sum.splits)

lemma stage_ok_failed:
  "answer_error W q = Some e \<Longrightarrow> stage_ok W (Inl e) [(q, Some e)]"
  by (simp add: stage_ok_def faithful_def all_ok_def)




lemma fetchBalances_loop_log:
  "\<exists>res new. fetchBalances_loop (w_balances W) addresses i m lg = (res, lg @ new)
      \<and> stage_ok W res new"
proof (induction "w_balances W" addresses i m lg rule: fetchBalances_loop.induct)
  case (1 addresses i m lg)
  let ?batch = "take batchSize (drop i addresses)"
  show ?case
  proof (cases "i < length addresses")
    case False
    then show ?thesis
      by (subst fetchBalances_loop.simps) (simp add: stage_ok_def)
  next
    case True
    show ?thesis
    proof (cases "graphqlQuery (w_balances W ?batch)")
      case (Inl e)
      then have "answer_error W (AccountBalances ?batch) = Some e"
        by (simp add: answer_error_def thrown_def)
      from stage_ok_failed [OF this] Inl True show ?thesis
        by (subst fetchBalances_loop.simps) (auto simp: Let_def)
    next
      case (Inr accounts)
      then have a: "answer_error W (AccountBalances ?batch) = None"
        by (simp add: answer_error_def thrown_def)
      from 1 [OF True refl Inr]
      obtain res new where
        r: "fetchBalances_loop (w_balances W) addresses (i + batchSize)
              (fold merge_balance accounts m) (lg @ [(AccountBalances ?batch, None)])
            = (res, (lg @ [(AccountBalances ?batch, None)]) @ new)"
        and s: "stage_ok W res new" by blast
      from stage_ok_Cons_ok [OF a s] r True Inr show ?thesis
        by (subst fetchBalances_loop.simps) (auto simp: Let_def)
    qed
  qed
qed

lemma all_ok_Cons [simp]: "all_ok (x # xs) \<longleftrightarrow> snd x = None \<and> all_ok xs"
  by (simp add: all_ok_def)

lemma faithful_Cons [simp]:
  "faithful W (x # xs) \<longleftrightarrow> snd x = answer_error W (fst x) \<and> faithful W xs"
  by (simp add: faithful_def)









subsection \<open>The run in the sample world\<close>

lemma sample_fetch:
  "fetchAllTransfers_loop (w_transfers sample_world) (cutoff30d (w_now sample_world)) 10000 0 [] []
     = Some (Inr sample_transfers, [(RecentTransfers 7408000 10000 0, None)])"
  by (subst fetchAllTransfers_loop.simps)
     (simp add: sample_world_def paged_def sample_transfers_def cutoff30d_def)

lemma sample_flows:
  "compute_flows (cutoff7d 10000000) (cutoff30d 10000000) sample_transfers
     = ([(''0xaa'', \<lparr>f_inflow = 0, f_outflow = 100, f_count = 1, f_chains = [''ethereum'']\<rparr>),
         (''0xbb'', \<lparr>f_inflow = 100, f_outflow = 0, f_count = 1, f_chains = [''ethereum'']\<rparr>)],
        [(''0xbb'', \<lparr>f_inflow = 100, f_outflow = 40, f_count = 2, f_chains = [''ethereum'']\<rparr>),
         (''0xcc'', \<lparr>f_inflow = 40, f_outflow = 0, f_count = 1, f_chains = [''ethereum'']\<rparr>),
         (''0xaa'', \<lparr>f_inflow = 0, f_outflow = 100, f_count = 1, f_chains = [''ethereum'']\<rparr>)])"
  by (simp add: sample_transfers_def flow_eval lower_eval)

lemma replicate_numeral_Cons:
  "replicate (numeral k) x = x # replicate (pred_numeral k) x"
  by (simp add: numeral_eq_Suc)

lemmas rank_eval = replicate_numeral_Cons buildTop_def TOP_N_def js_sort_def flow_cmp_def abs_net_def net_def flow_row_def
  Let_def

lemma sample_top7d:
  "buildTop [(''0xaa'', \<lparr>f_inflow = 0, f_outflow = 100, f_count = 1, f_chains = [''ethereum'']\<rparr>),
         (''0xbb'', \<lparr>f_inflow = 100, f_outflow = 0, f_count = 1, f_chains = [''ethereum'']\<rparr>)]
   = [\<lparr>r_address = ''0xaa'', r_inflow = ''0'', r_outflow = ''0.0000000000000001'',
          r_net_flow = ''-0.0000000000000001'', r_transfer_count = 1,
          r_chains = [''ethereum'']\<rparr>,
      \<lparr>r_address = ''0xbb'', r_inflow = ''0.0000000000000001'', r_outflow = ''0'',
          r_net_flow = ''0.0000000000000001'', r_transfer_count = 1,
          r_chains = [''ethereum'']\<rparr>]"
  by (simp add: rank_eval codec_eval)

lemma sample_top30d:
  "buildTop [(''0xbb'', \<lparr>f_inflow = 100, f_outflow = 40, f_count = 2, f_chains = [''ethereum'']\<rparr>),
         (''0xcc'', \<lparr>f_inflow = 40, f_outflow = 0, f_count = 1, f_chains = [''ethereum'']\<rparr>),
         (''0xaa'', \<lparr>f_inflow = 0, f_outflow = 100, f_count = 1, f_chains = [''ethereum'']\<rparr>)]
   = [\<lparr>r_address = ''0xaa'', r_inflow = ''0'', r_outflow = ''0.0000000000000001'',
          r_net_flow = ''-0.0000000000000001'', r_transfer_count = 1,
          r_chains = [''ethereum'']\<rparr>,
      \<lparr>r_address = ''0xbb'', r_inflow = ''0.0000000000000001'',
          r_outflow = ''0.00000000000000004'', r_net_flow = ''0.00000000000000006'',
          r_transfer_count = 2, r_chains = [''ethereum'']\<rparr>,
      \<lparr>r_address = ''0xcc'', r_inflow = ''0.00000000000000004'', r_outflow = ''0'',
          r_net_flow = ''0.00000000000000004'', r_transfer_count = 1,
          r_chains = [''ethereum'']\<rparr>]"
  by (simp add: rank_eval codec_eval)

lemma sample_balances:
  "fetchBalances sample_world [''0xaa'', ''0xbb'', ''0xcc'']
     [(RecentTransfers 7408000 10000 0, None), (TotalCount, None)]
   = (Inr [(''0xaa'', 8), (''0xbb'', 7)],
      [(RecentTransfers 7408000 10000 0, None), (TotalCount, None),
       (AccountBalances [''0xaa'', ''0xbb'', ''0xcc''], None)])"
  unfolding fetchBalances_def
  by (subst fetchBalances_loop.simps, simp add: batchSize_def sample_world_def sample_rows_def
      merge_balance_def lower_eval Let_def)
     (subst fetchBalances_loop.simps, simp add: batchSize_def)

lemma sample_holders:
  "fetchTopHolders sample_world lg
   = Some (Inr [\<lparr>hr_address = ''0xaa'', hr_balance = ''0.000000000000000008'',
                  hr_transfer_count = 6, hr_chains = [''ethereum'', ''gnosis'']\<rparr>,
                 \<lparr>hr_address = ''0xbb'', hr_balance = ''0.000000000000000007'',
                  hr_transfer_count = 1, hr_chains = [''gnosis'']\<rparr>],
           lg @ [(TopAccounts 5000 0, None)])"
proof -
  have "fetchTopHolders_loop (w_topAccounts sample_world) 5000 0 [] lg
      = Some (Inr [(''0xaa'', \<lparr>h_balance = 8, h_transferCount = 6,
                              h_chains = [''ethereum'', ''gnosis'']\<rparr>),
                   (''0xbb'', \<lparr>h_balance = 7, h_transferCount = 1, h_chains = [''gnosis'']\<rparr>)],
              lg @ [(TopAccounts 5000 0, None)])"
    by (subst fetchTopHolders_loop.simps)
       (simp add: sample_world_def paged_def sample_rows_def merge_page_def merge_holder_def
         lower_eval Let_def chainName_of_def CHAIN_NAMES_def set_add_def)
  moreover have "rank_holders [(''0xaa'', \<lparr>h_balance = 8, h_transferCount = 6,
                              h_chains = [''ethereum'', ''gnosis'']\<rparr>),
                   (''0xbb'', \<lparr>h_balance = 7, h_transferCount = 1, h_chains = [''gnosis'']\<rparr>)]
      = [\<lparr>hr_address = ''0xaa'', hr_balance = ''0.000000000000000008'',
                  hr_transfer_count = 6, hr_chains = [''ethereum'', ''gnosis'']\<rparr>,
                 \<lparr>hr_address = ''0xbb'', hr_balance = ''0.000000000000000007'',
                  hr_transfer_count = 1, hr_chains = [''gnosis'']\<rparr>]"
    by (simp add: rank_holders_def TOP_N_def js_sort_def holder_cmp_def holder_row_def
        replicate_numeral_Cons codec_eval less_eq_char_def)
  ultimately show ?thesis by (simp add: fetchTopHolders_def)
qed


lemma main_sample_write:
  "main (sample_world\<lparr>w_write := outcome\<rparr>) file
     = Some (fst (writeFileSync outcome sample_summary file),
             snd (writeFileSync outcome sample_summary file), sample_log)"
proof -
  let ?W = "sample_world\<lparr>w_write := outcome\<rparr>"
  have now: "w_now ?W = 10000000" "w_count ?W = Resp True 200 (Json None 2)"
      "w_labels ?W = None" "w_synced_at ?W = ''2026-01-01T00:00:00.000Z''"
      "w_transfers ?W = w_transfers sample_world" "w_write ?W = outcome"
    by (simp_all add: sample_world_def)
  have same: "fetchBalances ?W = fetchBalances sample_world"
      "fetchTopHolders ?W = fetchTopHolders sample_world"
    by (intro ext, simp add: fetchBalances_def fetchTopHolders_def)+
  have now': "w_now sample_world = 10000000"
    by (simp add: sample_world_def)
  have addrs: "set_add ''0xcc'' (set_add ''0xbb'' (set_add ''0xaa''
        (set_add ''0xbb'' (set_add ''0xaa'' [])))) = [''0xaa'', ''0xbb'', ''0xcc'']"
    by (simp add: set_add_def)
  show ?thesis
    unfolding main_def Let_def now same sample_fetch [unfolded now']
    by (cases outcome)
       (simp_all add: sample_flows sample_top7d sample_top30d addrs sample_balances
         sample_holders addBalances_def load_labels_def sample_summary_def sample_log_def
         bigintToDecimalString_def DECIMALS_DIVISOR_def DECIMALS_def toString_int_def
         toString_nat.simps padStart_def strip_trailing_zeros_def digit_char_lits
         replicate_numeral_Cons writeFileSync_def)
qed

lemma sample_world_write: "sample_world\<lparr>w_write := WriteOk\<rparr> = sample_world"
  by (simp add: sample_world_def)

lemma main_sample: "main sample_world file = Some (Inr (), Document sample_summary, sample_log)"
  using main_sample_write [where outcome = WriteOk]
  by (simp add: sample_world_write writeFileSync_def)









subsection \<open>Balances of ranked addresses\<close>

lemma keys_merge_balance:
  "fst ` set (merge_balance acct m) = insert (toLowerCase (a_address acct)) (fst ` set m)"
  by (simp add: merge_balance_def Let_def dom_update)

lemma keys_fold_merge_balance:
  "fst ` set (fold merge_balance accounts m)
     = fst ` set m \<union> (\<lambda>row. toLowerCase (a_address row)) ` set accounts"
  by (induction accounts arbitrary: m) (auto simp: keys_merge_balance)

lemma returned_addresses_mono: "set lg \<subseteq> set lg' \<Longrightarrow> returned_addresses W lg \<subseteq> returned_addresses W lg'"
  unfolding returned_addresses_def by blast

lemma fetchBalances_loop_keys:
  assumes "fetchBalances_loop (w_balances W) addresses i m lg = (Inr balances, lg')"
  shows "fst ` set balances \<subseteq> fst ` set m \<union> returned_addresses W lg'"
  using assms
proof (induction "w_balances W" addresses i m lg rule: fetchBalances_loop.induct)
  case (1 addresses i m lg)
  let ?batch = "take batchSize (drop i addresses)"
  show ?case
  proof (cases "i < length addresses")
    case False
    with "1.prems" have "balances = m"
      by (subst (asm) fetchBalances_loop.simps) simp
    then show ?thesis by auto
  next
    case True
    show ?thesis
    proof (cases "graphqlQuery (w_balances W ?batch)")
      case (Inl e)
      with True "1.prems" show ?thesis
        by (subst (asm) fetchBalances_loop.simps) (simp add: Let_def)
    next
      case (Inr accounts)
      with True "1.prems" have rec: "fetchBalances_loop (w_balances W) addresses (i + batchSize)
          (fold merge_balance accounts m) (lg @ [(AccountBalances ?batch, None)]) = (Inr balances, lg')"
        by (subst (asm) fetchBalances_loop.simps) (simp add: Let_def)
      from "1.hyps" [OF True refl Inr rec]
      have sub: "fst ` set balances
          \<subseteq> fst ` set (fold merge_balance accounts m) \<union> returned_addresses W lg'" .
      from fetchBalances_loop_log [of W addresses "i + batchSize" "fold merge_balance accounts m"
          "lg @ [(AccountBalances ?batch, None)]"] rec
      have "(AccountBalances ?batch, None) \<in> set lg'" by auto
      with Inr have "(\<lambda>row. toLowerCase (a_address row)) ` set accounts \<subseteq> returned_addresses W lg'"
        unfolding returned_addresses_def by blast
      with sub show ?thesis
        by (auto simp: keys_fold_merge_balance)
    qed
  qed
qed

lemma fetchTopHolders_loop_extends:
  assumes "fetchTopHolders_loop store limit offset m lg = Some y"
  shows "set lg \<subseteq> set (snd y)"
proof (rule fetchTopHolders_loop.raw_induct
    [where P = "\<lambda>store limit offset m lg y. set lg \<subseteq> set (snd y)", OF _ assms])
  fix loop :: "(nat \<Rightarrow> nat \<Rightarrow> AccountRow list http_response) \<Rightarrow> nat \<Rightarrow> nat \<Rightarrow> holder_map \<Rightarrow> log
     \<Rightarrow> ((error + holder_map) \<times> log) option"
  fix store limit offset m lg y
  assume IH: "\<And>limit offset m lg b y. loop limit offset m lg b = Some y \<Longrightarrow> set b \<subseteq> set (snd y)"
  assume body: "(case graphqlQuery (store limit offset) of
        Inl e \<Rightarrow> Some (Inl e, lg @ [(TopAccounts limit offset, Some e)])
      | Inr accounts \<Rightarrow>
          if length accounts < limit
          then Some (Inr (merge_page accounts m), lg @ [(TopAccounts limit offset, None)])
          else loop store limit (offset + limit) (merge_page accounts m)
                 (lg @ [(TopAccounts limit offset, None)])) = Some y"
  show "set lg \<subseteq> set (snd y)"
  proof (cases "graphqlQuery (store limit offset)")
    case (Inl e)
    with body show ?thesis by auto
  next
    case (Inr accounts)
    show ?thesis
    proof (cases "length accounts < limit")
      case True
      with Inr body show ?thesis by auto
    next
      case False
      with Inr body have "loop store limit (offset + limit) (merge_page accounts m)
          (lg @ [(TopAccounts limit offset, None)]) = Some y" by simp
      from IH [OF this] show ?thesis by simp
    qed
  qed
qed

lemma addBalances_zero:
  assumes "r \<in> set (addBalances balances rows)" and "r_address r \<notin> fst ` set balances"
  shows "r_balance r = ''0''"
proof -
  from assms(1) obtain r0 where r0: "r0 \<in> set rows"
    "r_address r = r_address r0"
    "r_balance r = bigintToDecimalString
        (case map_of balances (r_address r0) of Some b \<Rightarrow> b | None \<Rightarrow> 0)"
    by (auto simp: addBalances_def)
  from assms(2) r0(2) have "map_of balances (r_address r0) = None"
    by (simp add: map_of_eq_None_iff)
  with r0(3) show ?thesis
    by (simp add: codec_eval)
qed

lemma flow_part_addBalances: "map flow_part (addBalances balances rows) = rows"
  by (induction rows) (simp_all add: addBalances_def flow_part_def)

text \<open>
  Claim C8. When a run completes, the output file holds a document whose 7-day and 30-day
  lists are the rows of the two rankings computed from the retrieved transfers, in the
  same order and with every ranking field unchanged, each with a balance field added; and
  for every such row whose address got no Account row from the store in the balance
  queries of the run, that field is the text \<open>0\<close>.
\<close>

theorem missing_balance_is_zero:
  assumes "main W prev = Some (Inr u, file', lg)"
  shows "\<exists>doc allTransfers lg1. file' = Document doc
      \<and> fetchAllTransfers_loop (w_transfers W) (cutoff30d (w_now W)) 10000 0 [] []
          = Some (Inr allTransfers, lg1)
      \<and> map flow_part (top_7d doc)
          = buildTop (fst (compute_flows (cutoff7d (w_now W)) (cutoff30d (w_now W)) allTransfers))
      \<and> map flow_part (top_30d doc)
          = buildTop (snd (compute_flows (cutoff7d (w_now W)) (cutoff30d (w_now W)) allTransfers))
      \<and> (\<forall>r \<in> set (top_7d doc) \<union> set (top_30d doc).
            r_address r \<notin> returned_addresses W lg \<longrightarrow> r_balance r = ''0'')"
proof -
  from assms obtain allTransfers lg1 totalTransfers balances lg3 topHolders doc where
    t: "fetchAllTransfers_loop (w_transfers W) (cutoff30d (w_now W)) 10000 0 [] []
          = Some (Inr allTransfers, lg1)"
    and b: "fetchBalances W
          (fold set_add (map r_address (buildTop (snd (compute_flows (cutoff7d (w_now W))
              (cutoff30d (w_now W)) allTransfers))))
            (fold set_add (map r_address (buildTop (fst (compute_flows (cutoff7d (w_now W))
              (cutoff30d (w_now W)) allTransfers)))) []))
          (lg1 @ [(TotalCount, None)]) = (Inr balances, lg3)"
    and h: "fetchTopHolders W lg3 = Some (Inr topHolders, lg)"
    and f: "file' = Document doc"
    and d: "top_7d doc = addBalances balances (buildTop (fst (compute_flows (cutoff7d (w_now W))
              (cutoff30d (w_now W)) allTransfers)))"
       "top_30d doc = addBalances balances (buildTop (snd (compute_flows (cutoff7d (w_now W))
              (cutoff30d (w_now W)) allTransfers)))"
    by (auto simp: main_def Let_def writeFileSync_def
        split: option.splits sum.splits prod.splits write_outcome.splits)
  from h obtain holderMap where
    "fetchTopHolders_loop (w_topAccounts W) 5000 0 [] lg3 = Some (Inr holderMap, lg)"
    by (auto simp: fetchTopHolders_def split: option.splits sum.splits prod.splits)
  from fetchTopHolders_loop_extends [OF this] have "set lg3 \<subseteq> set lg" by simp
  from returned_addresses_mono [OF this]
  have sub: "returned_addresses W lg3 \<subseteq> returned_addresses W lg" .
  from fetchBalances_loop_keys [OF b [unfolded fetchBalances_def]]
  have keys: "fst ` set balances \<subseteq> returned_addresses W lg3" by simp
  have zero: "r_balance r = ''0''"
    if "r \<in> set (top_7d doc) \<union> set (top_30d doc)" "r_address r \<notin> returned_addresses W lg" for r
  proof -
    from that(2) sub keys have "r_address r \<notin> fst ` set balances" by blast
    with that(1) d show ?thesis by (auto intro: addBalances_zero)
  qed
  from t f d zero show ?thesis
    by (auto simp: flow_part_addBalances)
qed

theorem missing_balance_is_zero_witness:
  "\<exists>doc. main sample_world NoFile = Some (Inr (), Document doc, sample_log)
     \<and> map r_address (map flow_part (top_30d doc)) = [''0xaa'', ''0xbb'', ''0xcc'']
     \<and> r_balance (top_30d doc ! 2) = ''0''"
proof -
  have m: "main sample_world NoFile = Some (Inr (), Document sample_summary, sample_log)"
    by (rule main_sample)
  from missing_balance_is_zero [OF m]
  have z: "\<forall>r \<in> set (top_7d sample_summary) \<union> set (top_30d sample_summary).
            r_address r \<notin> returned_addresses sample_world sample_log \<longrightarrow> r_balance r = ''0''"
    by auto
  have r: "top_30d sample_summary ! 2 \<in> set (top_7d sample_summary) \<union> set (top_30d sample_summary)"
    by (simp add: sample_summary_def)
  have a: "map r_address (map flow_part (top_30d sample_summary)) = [''0xaa'', ''0xbb'', ''0xcc'']"
    by (simp add: sample_summary_def flow_part_def)
  have n: "r_address (top_30d sample_summary ! 2) \<notin> returned_addresses sample_world sample_log"
    by (auto simp: returned_addresses_def sample_world_def sample_rows_def sample_summary_def
        lower_eval)
  from z r n have "r_balance (top_30d sample_summary ! 2) = ''0''" by blast
  with m a show ?thesis
    by (intro exI [of _ sample_summary] conjI)
qed


end
